theory Spec2Isabelle
  imports Main
begin

section \<open>Go standard library functions used by the server\<close>

text \<open>
  Go strings are byte sequences, so a string is a \<open>char list\<close> and \<open>length\<close> counts
  bytes. The functions of this section are the ones \<open>main.go\<close> calls from the packages
  \<open>strings\<close>, \<open>strconv\<close> and \<open>fmt\<close>; each follows the behaviour of the Go
  implementation on the arguments the server passes.
\<close>

datatype error =
    ErrSyntax                \<comment> \<open>\<open>strconv.ErrSyntax\<close>\<close>
  | ErrRange                 \<comment> \<open>\<open>strconv.ErrRange\<close>\<close>
  | Errorf string            \<comment> \<open>\<open>fmt.Errorf(msg)\<close>\<close>
  | ErrNotExist              \<comment> \<open>no such file or directory\<close>
  | ErrPermission            \<comment> \<open>permission denied\<close>
  | ErrIsDir                 \<comment> \<open>is a directory\<close>
  | ErrNotDir                \<comment> \<open>not a directory\<close>
  | ErrInvalid               \<comment> \<open>invalid argument\<close>
  | ErrShortWrite            \<comment> \<open>a write that stopped early\<close>
  | ErrNotMultipart          \<comment> \<open>\<open>http.ErrNotMultipart\<close>\<close>
  | ErrMessageTooLarge       \<comment> \<open>\<open>multipart.ErrMessageTooLarge\<close>\<close>
  | ErrMissingFile           \<comment> \<open>\<open>http.ErrMissingFile\<close>\<close>

subsection \<open>Package strings\<close>

definition HasPrefix :: "string \<Rightarrow> string \<Rightarrow> bool" where
  "HasPrefix s p \<longleftrightarrow> length p \<le> length s \<and> take (length p) s = p"

definition TrimPrefix :: "string \<Rightarrow> string \<Rightarrow> string" where
  "TrimPrefix s p = (if HasPrefix s p then drop (length p) s else s)"

text \<open>
  \<open>strings.Split(s, sep)\<close> for a separator of one byte, which is all the server uses
  (\<open>","\<close> and \<open>"-"\<close>): the pieces between the separators, one more than there are
  separators, so never an empty list.
\<close>

fun Split :: "string \<Rightarrow> char \<Rightarrow> string list" where
  "Split [] sep = [[]]"
| "Split (c # cs) sep =
     (if c = sep then [] # Split cs sep
      else (case Split cs sep of
              [] \<Rightarrow> [[c]]
            | p # ps \<Rightarrow> (c # p) # ps))"

text \<open>
  \<open>strings.TrimSpace\<close> removes the leading and the trailing white space runes of
  \<open>unicode.IsSpace\<close>. On bytes these are the six ASCII characters and the UTF-8
  encodings of U+0085, U+00A0, U+1680, U+2000 to U+200A, U+2028, U+2029, U+202F,
  U+205F and U+3000; any other byte sequence decodes to a rune that is not a space.
\<close>

definition spaceRunes :: "string list" where
  "spaceRunes =
     [[CHR 0x09], [CHR 0x0A], [CHR 0x0B], [CHR 0x0C], [CHR 0x0D], [CHR 0x20],
      [CHR 0xC2, CHR 0x85], [CHR 0xC2, CHR 0xA0],
      [CHR 0xE1, CHR 0x9A, CHR 0x80],
      [CHR 0xE2, CHR 0x80, CHR 0x80], [CHR 0xE2, CHR 0x80, CHR 0x81],
      [CHR 0xE2, CHR 0x80, CHR 0x82], [CHR 0xE2, CHR 0x80, CHR 0x83],
      [CHR 0xE2, CHR 0x80, CHR 0x84], [CHR 0xE2, CHR 0x80, CHR 0x85],
      [CHR 0xE2, CHR 0x80, CHR 0x86], [CHR 0xE2, CHR 0x80, CHR 0x87],
      [CHR 0xE2, CHR 0x80, CHR 0x88], [CHR 0xE2, CHR 0x80, CHR 0x89],
      [CHR 0xE2, CHR 0x80, CHR 0x8A],
      [CHR 0xE2, CHR 0x80, CHR 0xA8], [CHR 0xE2, CHR 0x80, CHR 0xA9],
      [CHR 0xE2, CHR 0x80, CHR 0xAF],
      [CHR 0xE2, CHR 0x81, CHR 0x9F],
      [CHR 0xE3, CHR 0x80, CHR 0x80]]"

text \<open>The number of bytes of the white space rune a string starts with, 0 when it starts with none.\<close>

definition leadingSpace :: "string \<Rightarrow> nat" where
  "leadingSpace s = (case List.find (\<lambda>p. HasPrefix s p) spaceRunes of
                       None \<Rightarrow> 0 | Some p \<Rightarrow> length p)"

definition trailingSpace :: "string \<Rightarrow> nat" where
  "trailingSpace s = (case List.find (\<lambda>p. HasPrefix (rev s) (rev p)) spaceRunes of
                        None \<Rightarrow> 0 | Some p \<Rightarrow> length p)"

function TrimLeftSpace :: "string \<Rightarrow> string" where
  "TrimLeftSpace s =
     (if leadingSpace s = 0 \<or> s = [] then s else TrimLeftSpace (drop (leadingSpace s) s))"
  by pat_completeness auto
termination
  by (relation "measure length") auto

function TrimRightSpace :: "string \<Rightarrow> string" where
  "TrimRightSpace s =
     (if trailingSpace s = 0 \<or> s = [] then s
      else TrimRightSpace (take (length s - trailingSpace s) s))"
  by pat_completeness auto
termination
  by (relation "measure length") auto

declare TrimLeftSpace.simps [simp del] TrimRightSpace.simps [simp del]

definition TrimSpace :: "string \<Rightarrow> string" where
  "TrimSpace s = TrimRightSpace (TrimLeftSpace s)"

subsection \<open>Package strconv\<close>

text \<open>
  The value of a decimal digit, as the loop of \<open>ParseUint\<close> computes it:
  \<open>'0' <= c && c <= '9'\<close> gives \<open>c - '0'\<close>; any other byte is no digit of base 10.
\<close>

definition digitVal :: "char \<Rightarrow> int option" where
  "digitVal c =
     (if 48 \<le> (of_char c :: int) \<and> (of_char c :: int) \<le> 57 then Some (of_char c - 48)
      else None)"

definition maxUint64 :: int where
  "maxUint64 = 2 ^ 64 - 1"

text \<open>
  The digit loop of \<open>strconv.ParseUint(s, 10, 64)\<close>: a byte that is no decimal digit is a
  syntax error, and a value that leaves 64 bits is a range error, reported at the byte
  where it happens. The \<open>uint64\<close> accumulator is an \<open>int\<close> that the two checks keep
  below \<open>2^64\<close>.
\<close>

fun ParseUint_loop :: "int \<Rightarrow> string \<Rightarrow> error + int" where
  "ParseUint_loop n [] = Inr n"
| "ParseUint_loop n (c # cs) =
     (case digitVal c of
        None \<Rightarrow> Inl ErrSyntax
      | Some d \<Rightarrow>
          if n \<ge> maxUint64 div 10 + 1 then Inl ErrRange
          else if n * 10 + d > maxUint64 then Inl ErrRange
          else ParseUint_loop (n * 10 + d) cs)"

definition ParseUint :: "string \<Rightarrow> error + int" where
  "ParseUint s = (if s = [] then Inl ErrSyntax else ParseUint_loop 0 s)"

text \<open>
  \<open>strconv.ParseInt(s, 10, 64)\<close>: an optional sign, then \<open>ParseUint\<close>, then the check
  against the signed range. The result is an \<open>int64\<close>, here an \<open>int\<close> between
  \<open>-2^63\<close> and \<open>2^63 - 1\<close>.
\<close>

definition ParseInt :: "string \<Rightarrow> error + int" where
  "ParseInt s =
     (if s = [] then Inl ErrSyntax
      else
        let neg = (hd s = CHR ''-'');
            s' = (if hd s = CHR ''+'' \<or> hd s = CHR ''-'' then tl s else s)
        in case ParseUint s' of
             Inl e \<Rightarrow> Inl e
           | Inr un \<Rightarrow>
               if \<not> neg \<and> un \<ge> 2 ^ 63 then Inl ErrRange
               else if neg \<and> un > 2 ^ 63 then Inl ErrRange
               else Inr (if neg then - un else un))"

text \<open>\<open>strconv.FormatInt(i, 10)\<close>, which is also what \<open>%d\<close> prints for an \<open>int64\<close>.\<close>

definition digitChar :: "int \<Rightarrow> char" where
  "digitChar d = ''0123456789'' ! nat d"

function digits10 :: "int \<Rightarrow> string" where
  "digits10 n = (if n < 10 then [digitChar n]
                 else digits10 (n div 10) @ [digitChar (n mod 10)])"
  by pat_completeness auto
termination
  by (relation "measure nat") auto

declare digits10.simps [simp del]

definition FormatInt :: "int \<Rightarrow> string" where
  "FormatInt i = (if i < 0 then CHR ''-'' # digits10 (- i) else digits10 i)"

subsection \<open>64-bit integers\<close>

text \<open>
  An \<open>int64\<close> is an \<open>int\<close> in the signed 64-bit range; \<open>wrap64\<close> is the value Go keeps
  after an addition or subtraction, which wraps around.
\<close>

definition wrap64 :: "int \<Rightarrow> int" where
  "wrap64 x = (x + 2 ^ 63) mod 2 ^ 64 - 2 ^ 63"

definition isInt64 :: "int \<Rightarrow> bool" where
  "isInt64 x \<longleftrightarrow> - (2 ^ 63) \<le> x \<and> x < 2 ^ 63"

section \<open>Paths, files and HTTP: the library interfaces of the handlers\<close>

subsection \<open>Package path/filepath, on Unix\<close>

text \<open>\<open>strings.Join(elems, sep)\<close>.\<close>

fun strings_Join :: "string list \<Rightarrow> string \<Rightarrow> string" where
  "strings_Join [] sep = []"
| "strings_Join [e] sep = e"
| "strings_Join (e # es) sep = e @ sep @ strings_Join es sep"

definition filepath_IsAbs :: "string \<Rightarrow> bool" where
  "filepath_IsAbs path = HasPrefix path ''/''"

text \<open>
  \<open>filepath.Clean\<close> reads the path element by element and keeps the elements of the result
  in \<open>out\<close>: an empty element or \<open>.\<close> is dropped; \<open>..\<close> removes the last element of
  \<open>out\<close> when there is one to remove, is dropped at the root, and is kept in a relative
  path that has nothing left to remove; any other element is appended.
\<close>

definition cleanElem :: "bool \<Rightarrow> string list \<Rightarrow> string \<Rightarrow> string list" where
  "cleanElem rooted out e =
     (if e = [] \<or> e = ''.'' then out
      else if e = ''..'' then
        (if out \<noteq> [] \<and> last out \<noteq> ''..'' then butlast out
         else if rooted then out
         else out @ [''..''])
      else out @ [e])"

definition filepath_Clean :: "string \<Rightarrow> string" where
  "filepath_Clean path =
     (if path = [] then ''.''
      else
        let rooted = (hd path = CHR ''/'');
            out = foldl (cleanElem rooted) [] (Split path (CHR ''/''))
        in if rooted then CHR ''/'' # strings_Join out ''/''
           else if out = [] then ''.''
           else strings_Join out ''/'')"

text \<open>
  \<open>filepath.Join\<close> ignores the empty elements in front, joins the rest with the separator
  and cleans the result; with no element left the result is empty.
\<close>

definition filepath_Join :: "string list \<Rightarrow> string" where
  "filepath_Join elem =
     (case dropWhile (\<lambda>e. e = []) elem of
        [] \<Rightarrow> []
      | es \<Rightarrow> filepath_Clean (strings_Join es ''/''))"

text \<open>
  \<open>filepath.Abs\<close>: an absolute path is cleaned; a relative one is joined to the working
  directory of the process, which \<open>os.Getwd\<close> may fail to give.
\<close>

definition filepath_Abs :: "error + string \<Rightarrow> string \<Rightarrow> error + string" where
  "filepath_Abs getwd path =
     (if filepath_IsAbs path then Inr (filepath_Clean path)
      else (case getwd of
              Inl err \<Rightarrow> Inl err
            | Inr wd \<Rightarrow> Inr (filepath_Join [wd, path])))"

text \<open>
  \<open>filepath.Base\<close>: the last element of the path, after the trailing separators are
  removed; \<open>.\<close> for the empty path and \<open>/\<close> for a path of separators only.
\<close>

definition filepath_Base :: "string \<Rightarrow> string" where
  "filepath_Base path =
     (if path = [] then ''.''
      else
        let stripped = rev (dropWhile (\<lambda>c. c = CHR ''/'') (rev path));
            element = rev (takeWhile (\<lambda>c. c \<noteq> CHR ''/'') (rev stripped))
        in if element = [] then ''/'' else element)"

text \<open>\<open>filepath.Dir\<close>: all but the last element of the path, cleaned.\<close>

definition filepath_Dir :: "string \<Rightarrow> string" where
  "filepath_Dir path = filepath_Clean (rev (dropWhile (\<lambda>c. c \<noteq> CHR ''/'') (rev path)))"

subsection \<open>Package os\<close>

text \<open>
  The file system as the handlers see it: a path names a regular file with its bytes, a
  directory, or something the process may not touch. A directory carries what
  \<open>os.ReadDir\<close> reports for it: an error, or its entries, each with the result its
  \<open>Info()\<close> call will give (an entry can be listed and gone, or unreadable, by the time
  \<open>Info\<close> looks at it). The handlers pass the operating system only paths made by
  \<open>filepath.Join\<close>, so a path is looked up as it is written. \<open>quota\<close> is the number of
  bytes one copy to a file can write before the system reports an error, if there is a limit.
\<close>

record os_FileInfo =
  info_Size :: int
  info_ModTime :: int

record DirEntry =
  entry_Name :: string
  entry_IsDir :: bool
  entry_Info :: "error + os_FileInfo"

datatype node =
    File string
  | Directory "error + DirEntry list"
  | NoAccess

record os_state =
  getwd :: "error + string"
  nodes :: "string \<rightharpoonup> node"
  quota :: "nat option"

definition os_IsNotExist :: "error \<Rightarrow> bool" where
  "os_IsNotExist err \<longleftrightarrow> err = ErrNotExist"

text \<open>\<open>os.Stat\<close> and \<open>os.Open\<close> (for reading; a directory can be opened too).\<close>

definition os_Stat :: "os_state \<Rightarrow> string \<Rightarrow> error + node" where
  "os_Stat os name =
     (case nodes os name of
        None \<Rightarrow> Inl ErrNotExist
      | Some NoAccess \<Rightarrow> Inl ErrPermission
      | Some n \<Rightarrow> Inr n)"

definition os_Open :: "os_state \<Rightarrow> string \<Rightarrow> error + node" where
  "os_Open os name = os_Stat os name"

text \<open>The methods \<open>IsDir()\<close> and \<open>Size()\<close> of the \<open>FileInfo\<close> of a node; the size of a
  directory depends on the system and is not read by the handlers.\<close>

definition node_IsDir :: "node \<Rightarrow> bool" where
  "node_IsDir n = (case n of Directory _ \<Rightarrow> True | _ \<Rightarrow> False)"

definition node_Size :: "node \<Rightarrow> int" where
  "node_Size n = (case n of File content \<Rightarrow> int (length content) | _ \<Rightarrow> 0)"

definition os_ReadDir :: "os_state \<Rightarrow> string \<Rightarrow> error + DirEntry list" where
  "os_ReadDir os name =
     (case nodes os name of
        None \<Rightarrow> Inl ErrNotExist
      | Some NoAccess \<Rightarrow> Inl ErrPermission
      | Some (File _) \<Rightarrow> Inl ErrNotDir
      | Some (Directory entries) \<Rightarrow> entries)"

text \<open>
  \<open>os.MkdirAll\<close> walks from the top of the path down: a directory that exists is kept,
  one that is missing is created, and anything else in the way is an error. The paths it
  walks are the prefixes of the path that end before a separator, and the path itself.
\<close>

definition pathPrefixes :: "string \<Rightarrow> string list" where
  "pathPrefixes path =
     (let elems = filter (\<lambda>e. e \<noteq> []) (Split path (CHR ''/''))
      in if filepath_IsAbs path
         then map (\<lambda>k. CHR ''/'' # strings_Join (take k elems) ''/'') [0 ..< length elems + 1]
         else map (\<lambda>k. strings_Join (take k elems) ''/'') [1 ..< length elems + 1])"

fun mkdirs :: "(string \<rightharpoonup> node) \<Rightarrow> string list \<Rightarrow> (string \<rightharpoonup> node) \<times> error option" where
  "mkdirs fs [] = (fs, None)"
| "mkdirs fs (p # ps) =
     (case fs p of
        None \<Rightarrow> mkdirs (fs(p \<mapsto> Directory (Inr []))) ps
      | Some (Directory _) \<Rightarrow> mkdirs fs ps
      | Some (File _) \<Rightarrow> (fs, Some ErrNotDir)
      | Some NoAccess \<Rightarrow> (fs, Some ErrPermission))"

definition os_MkdirAll :: "os_state \<Rightarrow> string \<Rightarrow> os_state \<times> error option" where
  "os_MkdirAll os path =
     (case mkdirs (nodes os) (pathPrefixes path) of
        (fs, err) \<Rightarrow> (os\<lparr>nodes := fs\<rparr>, err))"

text \<open>
  \<open>os.Create\<close> creates the file or truncates it. It fails on a directory, on a path it
  may not touch, and when the directory that is to hold the file is not there.
\<close>

definition os_Create :: "os_state \<Rightarrow> string \<Rightarrow> error + os_state" where
  "os_Create os name =
     (case nodes os name of
        Some (Directory _) \<Rightarrow> Inl ErrIsDir
      | Some NoAccess \<Rightarrow> Inl ErrPermission
      | _ \<Rightarrow>
          (case nodes os (filepath_Dir name) of
             None \<Rightarrow> Inl ErrNotExist
           | Some (File _) \<Rightarrow> Inl ErrNotDir
           | Some NoAccess \<Rightarrow> Inl ErrPermission
           | Some (Directory _) \<Rightarrow> Inr (os\<lparr>nodes := (nodes os)(name \<mapsto> File [])\<rparr>)))"

text \<open>
  \<open>io.Copy(dst, src)\<close> into the file just created at \<open>name\<close>: all of \<open>src\<close> is written,
  or, past the quota, only the bytes up to it, with an error.
\<close>

definition io_Copy :: "os_state \<Rightarrow> string \<Rightarrow> string \<Rightarrow> os_state \<times> error option" where
  "io_Copy os name src =
     (case quota os of
        None \<Rightarrow> (os\<lparr>nodes := (nodes os)(name \<mapsto> File src)\<rparr>, None)
      | Some q \<Rightarrow>
          if length src \<le> q then (os\<lparr>nodes := (nodes os)(name \<mapsto> File src)\<rparr>, None)
          else (os\<lparr>nodes := (nodes os)(name \<mapsto> File (take q src))\<rparr>, Some ErrShortWrite))"

subsection \<open>Package net/http\<close>

type_synonym Header = "string \<rightharpoonup> string list"

definition Header_Get :: "Header \<Rightarrow> string \<Rightarrow> string" where
  "Header_Get h key = (case h key of Some (v # _) \<Rightarrow> v | _ \<Rightarrow> [])"

definition Header_Set :: "Header \<Rightarrow> string \<Rightarrow> string \<Rightarrow> Header" where
  "Header_Set h key v = h(key \<mapsto> [v])"

definition Header_Del :: "Header \<Rightarrow> string \<Rightarrow> Header" where
  "Header_Del h key = h(key := None)"

text \<open>
  A multipart body, read: its parts in order, each with the field name and the file name
  of its \<open>Content-Disposition\<close> and its bytes; or the error of a body that is no
  well-formed multipart message.
\<close>

record Part =
  FormName :: string
  FileName :: string
  Data :: string

record Request =
  Method :: string
  URL_Path :: string
  URL_Query :: "string \<rightharpoonup> string list"
  Header :: Header
  Body :: "error + Part list"

text \<open>
  The \<open>ResponseWriter\<close> the server hands to a handler: the header map the handler
  edits, the status line and the headers as they went out with the first \<open>WriteHeader\<close>
  (later calls change nothing), and the bytes of the body. A \<open>Write\<close> before any
  \<open>WriteHeader\<close> sends status 200 first. The server answers a HEAD request without a
  body: the bytes a handler writes to it are dropped.
\<close>

record ResponseWriter =
  w_Header :: Header
  w_sent :: "(nat \<times> Header) option"
  w_body :: string
  w_head :: bool

definition newResponseWriter :: "Request \<Rightarrow> ResponseWriter" where
  "newResponseWriter r =
     \<lparr>w_Header = Map.empty, w_sent = None, w_body = [], w_head = (Method r = ''HEAD'')\<rparr>"

definition Set_Header :: "ResponseWriter \<Rightarrow> string \<Rightarrow> string \<Rightarrow> ResponseWriter" where
  "Set_Header w key v = w\<lparr>w_Header := Header_Set (w_Header w) key v\<rparr>"

definition WriteHeader :: "ResponseWriter \<Rightarrow> nat \<Rightarrow> ResponseWriter" where
  "WriteHeader w code =
     (case w_sent w of
        None \<Rightarrow> w\<lparr>w_sent := Some (code, w_Header w)\<rparr>
      | Some _ \<Rightarrow> w)"

definition Write :: "ResponseWriter \<Rightarrow> string \<Rightarrow> ResponseWriter" where
  "Write w p =
     (let w' = WriteHeader w 200
      in if w_head w' then w' else w'\<lparr>w_body := w_body w' @ p\<rparr>)"

text \<open>What the client receives: status, headers, body. A handler that returns without
  writing anything gets status 200 and the headers it has set.\<close>

definition status :: "ResponseWriter \<Rightarrow> nat" where
  "status w = (case w_sent w of None \<Rightarrow> 200 | Some (code, _) \<Rightarrow> code)"

definition headers :: "ResponseWriter \<Rightarrow> Header" where
  "headers w = (case w_sent w of None \<Rightarrow> w_Header w | Some (_, h) \<Rightarrow> h)"

text \<open>
  \<open>http.Error\<close>: the reply is plain text, whatever content headers were set before,
  and its body is the message and a newline.
\<close>

definition http_Error :: "ResponseWriter \<Rightarrow> string \<Rightarrow> nat \<Rightarrow> ResponseWriter" where
  "http_Error w msg code =
     (let w1 = w\<lparr>w_Header := Header_Del (w_Header w) ''Content-Length''\<rparr>;
          w2 = Set_Header w1 ''Content-Type'' ''text/plain; charset=utf-8'';
          w3 = Set_Header w2 ''X-Content-Type-Options'' ''nosniff'';
          w4 = WriteHeader w3 code
      in Write w4 (msg @ [CHR 0x0A]))"

text \<open>
  \<open>http.Redirect\<close>: the \<open>Location\<close> header and the status. The value of \<open>Location\<close> is
  kept as the handler passes it; the library also normalises the path of the URL and adds a
  short HTML body to the answer of a GET, which no property below reads.
\<close>

definition http_Redirect :: "ResponseWriter \<Rightarrow> string \<Rightarrow> nat \<Rightarrow> ResponseWriter" where
  "http_Redirect w url code = WriteHeader (Set_Header w ''Location'' url) code"

text \<open>
  \<open>mime/multipart\<close>, \<open>ReadForm(maxMemory)\<close>: a part without a field name is skipped; a
  part without a file name is a value, and the values together may take \<open>maxMemory\<close> plus
  10 MiB, beyond which the form is refused as too large; a part with a file name is a file,
  kept in memory up to \<open>maxMemory\<close> and in a temporary file beyond, whatever its size.
\<close>

record FileHeader =
  Filename :: string
  Content :: string

record Form =
  Value :: "string \<rightharpoonup> string list"
  File_parts :: "string \<rightharpoonup> FileHeader list"

definition append_at :: "('k \<rightharpoonup> 'v list) \<Rightarrow> 'k \<Rightarrow> 'v \<Rightarrow> ('k \<rightharpoonup> 'v list)" where
  "append_at m k v = m(k \<mapsto> (case m k of None \<Rightarrow> [v] | Some vs \<Rightarrow> vs @ [v]))"

fun readForm :: "Part list \<Rightarrow> int \<Rightarrow> Form \<Rightarrow> error + Form" where
  "readForm [] maxValueBytes form = Inr form"
| "readForm (p # ps) maxValueBytes form =
     (if FormName p = [] then readForm ps maxValueBytes form
      else if FileName p = [] then
        (if maxValueBytes - int (length (Data p)) < 0 then Inl ErrMessageTooLarge
         else readForm ps (maxValueBytes - int (length (Data p)))
                (form\<lparr>Value := append_at (Value form) (FormName p) (Data p)\<rparr>))
      else readForm ps maxValueBytes
             (form\<lparr>File_parts := append_at (File_parts form) (FormName p)
                      \<lparr>Filename = FileName p, Content = Data p\<rparr>\<rparr>))"

definition ParseMultipartForm :: "Request \<Rightarrow> int \<Rightarrow> error + Form" where
  "ParseMultipartForm r maxMemory =
     (case Body r of
        Inl err \<Rightarrow> Inl err
      | Inr parts \<Rightarrow>
          readForm parts (maxMemory + 10 * 2 ^ 20) \<lparr>Value = Map.empty, File_parts = Map.empty\<rparr>)"

text \<open>\<open>r.FormFile(key)\<close> and \<open>r.FormValue(key)\<close> once the form is parsed; the values of
  the URL query come before the values of the body.\<close>

definition FormFile :: "Form \<Rightarrow> string \<Rightarrow> error + FileHeader" where
  "FormFile form key =
     (case File_parts form key of
        Some (fh # _) \<Rightarrow> Inr fh
      | _ \<Rightarrow> Inl ErrMissingFile)"

definition FormValue :: "Request \<Rightarrow> Form \<Rightarrow> string \<Rightarrow> string" where
  "FormValue r form key =
     (case (case URL_Query r key of None \<Rightarrow> [] | Some vs \<Rightarrow> vs) @
           (case Value form key of None \<Rightarrow> [] | Some vs \<Rightarrow> vs) of
        [] \<Rightarrow> []
      | v # _ \<Rightarrow> v)"

text \<open>The text of an error, \<open>err.Error()\<close>, shortened to the kind of the error.\<close>

definition Error_text :: "error \<Rightarrow> string" where
  "Error_text err =
     (case err of
        ErrSyntax \<Rightarrow> ''invalid syntax''
      | ErrRange \<Rightarrow> ''value out of range''
      | Errorf msg \<Rightarrow> msg
      | ErrNotExist \<Rightarrow> ''no such file or directory''
      | ErrPermission \<Rightarrow> ''permission denied''
      | ErrIsDir \<Rightarrow> ''is a directory''
      | ErrNotDir \<Rightarrow> ''not a directory''
      | ErrInvalid \<Rightarrow> ''invalid argument''
      | ErrShortWrite \<Rightarrow> ''short write''
      | ErrNotMultipart \<Rightarrow> ''request Content-Type isn't multipart/form-data''
      | ErrMessageTooLarge \<Rightarrow> ''multipart: message too large''
      | ErrMissingFile \<Rightarrow> ''http: no such file'')"

section \<open>The server\<close>

text \<open>
  The global variables of \<open>main.go\<close> that the handlers read, set once by \<open>main\<close> and
  \<open>init\<close>. The MIME lookup \<open>getMIMEType\<close> with its tables and the parsed templates
  are parameters: a function from a path to a content type and whether a browser can show
  it, and a function from a template name and its data to the bytes written and the error
  of the execution, if any. What is proved of the handlers holds for every such pair.
\<close>

record FileInfo =
  Name :: string
  Path :: string
  Size :: int
  ModTime :: int
  IsDir :: bool

record PageData =
  CurrentPath :: string
  ParentPath :: string
  Files :: "FileInfo list"
  Error :: string

record globals =
  workingDir :: string
  intelligentMIME :: bool
  getMIMEType :: "string \<Rightarrow> string \<times> bool"
  ExecuteTemplate :: "string \<Rightarrow> PageData option \<Rightarrow> string \<times> error option"

text \<open>
  \<open>if err := templates.ExecuteTemplate(w, name, data); err != nil \<dots>\<close>, the last step
  of the two handlers that render a page.
\<close>

definition renderTemplate ::
  "globals \<Rightarrow> ResponseWriter \<Rightarrow> string \<Rightarrow> PageData option \<Rightarrow> ResponseWriter" where
  "renderTemplate g w name data =
     (case ExecuteTemplate g name data of
        (out, err) \<Rightarrow>
          let w1 = (if out = [] then w else Write w out)
          in (case err of
                None \<Rightarrow> w1
              | Some _ \<Rightarrow> http_Error w1 ''Error rendering page'' 500))"

text \<open>
  The security check of the three handlers (lines 169 to 178, 254 to 263 and 390 to 399):
  the absolute path of the target, and whether it has the absolute path of the working
  directory as a prefix. An error of the second \<open>filepath.Abs\<close> is dropped by the code,
  which leaves the empty string.
\<close>

definition cleanWorkingDir :: "globals \<Rightarrow> os_state \<Rightarrow> string" where
  "cleanWorkingDir g os =
     (case filepath_Abs (getwd os) (workingDir g) of Inl _ \<Rightarrow> [] | Inr p \<Rightarrow> p)"

subsection \<open>Range headers\<close>

record byteRange =
  start :: int
  "end" :: int

text \<open>
  \<open>parseRange\<close>, lines 639 to 695. \<open>rangeBounds\<close> is the part of the loop body that
  computes \<open>start\<close> and \<open>end\<close> of one spec (the three shapes, lines 648 to 685);
  \<open>parseRange_loop\<close> is the loop with the validation of line 687 and the append.
\<close>

definition rangeBounds :: "int \<Rightarrow> string \<Rightarrow> error + (int \<times> int)" where
  "rangeBounds size' rangeSpec =
     (let parts = Split (TrimSpace rangeSpec) (CHR ''-'') in
      if length parts \<noteq> 2 then Inl (Errorf ''invalid range spec'')
      else if parts ! 0 = [] then
        (case ParseInt (parts ! 1) of
           Inl err \<Rightarrow> Inl err
         | Inr n \<Rightarrow>
             let start' = wrap64 (size' - n)
             in Inr (if start' < 0 then 0 else start', wrap64 (size' - 1)))
      else if parts ! 1 = [] then
        (case ParseInt (parts ! 0) of
           Inl err \<Rightarrow> Inl err
         | Inr start' \<Rightarrow> Inr (start', wrap64 (size' - 1)))
      else
        (case ParseInt (parts ! 0) of
           Inl err \<Rightarrow> Inl err
         | Inr start' \<Rightarrow>
             (case ParseInt (parts ! 1) of
                Inl err \<Rightarrow> Inl err
              | Inr end' \<Rightarrow> Inr (start', end'))))"

fun parseRange_loop :: "int \<Rightarrow> string list \<Rightarrow> byteRange list \<Rightarrow> error + byteRange list" where
  "parseRange_loop size' [] ranges = Inr ranges"
| "parseRange_loop size' (rangeSpec # rest) ranges =
     (case rangeBounds size' rangeSpec of
        Inl err \<Rightarrow> Inl err
      | Inr (start', end') \<Rightarrow>
          if start' < 0 \<or> start' \<ge> size' \<or> end' < start' \<or> end' \<ge> size'
          then Inl (Errorf ''invalid range'')
          else parseRange_loop size' rest (ranges @ [\<lparr>start = start', end = end'\<rparr>]))"

definition parseRange :: "string \<Rightarrow> int \<Rightarrow> error + byteRange list" where
  "parseRange s size' =
     (if \<not> HasPrefix s ''bytes='' then Inl (Errorf ''invalid range header'')
      else parseRange_loop size' (Split (TrimPrefix s ''bytes='') (CHR '','')) [])"

subsection \<open>Browsing\<close>

text \<open>The loop over the directory entries, lines 204 to 218.\<close>

fun listFiles :: "string \<Rightarrow> DirEntry list \<Rightarrow> FileInfo list \<Rightarrow> FileInfo list" where
  "listFiles requestedPath [] files = files"
| "listFiles requestedPath (entry # entries) files =
     (case entry_Info entry of
        Inl err \<Rightarrow> listFiles requestedPath entries files
      | Inr entryInfo \<Rightarrow>
          listFiles requestedPath entries
            (files @ [\<lparr>Name = entry_Name entry,
                       Path = filepath_Join [requestedPath, entry_Name entry],
                       Size = info_Size entryInfo,
                       ModTime = info_ModTime entryInfo,
                       IsDir = entry_IsDir entry\<rparr>]))"

definition browseHandler ::
  "globals \<Rightarrow> os_state \<Rightarrow> ResponseWriter \<Rightarrow> Request \<Rightarrow> ResponseWriter" where
  "browseHandler g os w r =
     (if Method r \<noteq> ''GET'' then http_Error w ''Method not allowed'' 405
      else
        let requestedPath = TrimPrefix (URL_Path r) ''/'';
            fullPath = filepath_Join [workingDir g, requestedPath]
        in case filepath_Abs (getwd os) fullPath of
             Inl err \<Rightarrow> http_Error w ''Invalid path'' 400
           | Inr cleanPath \<Rightarrow>
               if \<not> HasPrefix cleanPath (cleanWorkingDir g os)
               then http_Error w ''Access denied'' 403
               else
                 (case os_Stat os fullPath of
                    Inl err \<Rightarrow>
                      if os_IsNotExist err then http_Error w ''Path not found'' 404
                      else http_Error w ''Error accessing path'' 500
                  | Inr info \<Rightarrow>
                      if \<not> node_IsDir info
                      then http_Redirect w (''/download/'' @ requestedPath) 302
                      else
                        (case os_ReadDir os fullPath of
                           Inl err \<Rightarrow> http_Error w ''Error reading directory'' 500
                         | Inr entries \<Rightarrow>
                             let files = listFiles requestedPath entries [];
                                 parentPath =
                                   (if requestedPath \<noteq> [] then
                                      (if filepath_Dir requestedPath = ''.'' then []
                                       else filepath_Dir requestedPath)
                                    else []);
                                 data = \<lparr>CurrentPath = requestedPath, ParentPath = parentPath,
                                         Files = files, Error = []\<rparr>;
                                 w1 = Set_Header w ''Content-Type'' ''text/html; charset=utf-8''
                             in renderTemplate g w1 ''browse.html'' (Some data))))"

subsection \<open>Downloading\<close>

text \<open>
  The open file of \<open>downloadHandler\<close> is its node. \<open>file.Stat()\<close> gives the node's
  \<open>FileInfo\<close>; \<open>file.Seek(offset, 0)\<close> leaves the bytes from \<open>offset\<close> on to be read
  and refuses a negative offset; \<open>io.Copy\<close> writes all that is left to read and
  \<open>io.CopyN\<close> at most \<open>n\<close> bytes of it.
\<close>

definition file_Stat :: "node \<Rightarrow> error + node" where
  "file_Stat file = Inr file"

definition file_bytes :: "node \<Rightarrow> string" where
  "file_bytes file = (case file of File content \<Rightarrow> content | _ \<Rightarrow> [])"

definition file_Seek :: "node \<Rightarrow> int \<Rightarrow> error + string" where
  "file_Seek file offset =
     (if offset < 0 then Inl ErrInvalid else Inr (drop (nat offset) (file_bytes file)))"

definition downloadHandler ::
  "globals \<Rightarrow> os_state \<Rightarrow> ResponseWriter \<Rightarrow> Request \<Rightarrow> ResponseWriter" where
  "downloadHandler g os w r =
     (if Method r \<noteq> ''GET'' \<and> Method r \<noteq> ''HEAD''
      then http_Error w ''Method not allowed'' 405
      else
        let requestedPath = TrimPrefix (URL_Path r) ''/download/'';
            fullPath = filepath_Join [workingDir g, requestedPath]
        in case filepath_Abs (getwd os) fullPath of
             Inl err \<Rightarrow> http_Error w ''Invalid path'' 400
           | Inr cleanPath \<Rightarrow>
               if \<not> HasPrefix cleanPath (cleanWorkingDir g os)
               then http_Error w ''Access denied'' 403
               else
                 (case os_Open os fullPath of
                    Inl err \<Rightarrow>
                      if os_IsNotExist err then http_Error w ''File not found'' 404
                      else http_Error w ''Error opening file'' 500
                  | Inr file \<Rightarrow>
                      (case file_Stat file of
                         Inl err \<Rightarrow> http_Error w ''Error getting file info'' 500
                       | Inr fileInfo \<Rightarrow>
                           if node_IsDir fileInfo
                           then http_Error w ''Cannot download directory'' 400
                           else
                             let fileSize = node_Size fileInfo;
                                 fileName = filepath_Base fullPath;
                                 viewable = (intelligentMIME g \<and> snd (getMIMEType g fullPath));
                                 contentType = (if viewable then fst (getMIMEType g fullPath)
                                                else ''application/octet-stream'');
                                 disposition = (if viewable then ''inline'' else ''attachment'');
                                 w1 = Set_Header w ''Content-Disposition''
                                        (disposition @ ''; filename='' @ [CHR 0x22] @ fileName @ [CHR 0x22]);
                                 w2 = Set_Header w1 ''Accept-Ranges'' ''bytes'';
                                 w3 = Set_Header w2 ''Content-Type'' contentType;
                                 rangeHeader = Header_Get (Header r) ''Range''
                             in
                               if rangeHeader = [] then
                                 (let w4 = Set_Header w3 ''Content-Length'' (FormatInt fileSize);
                                      w5 = WriteHeader w4 200
                                  in if Method r \<noteq> ''HEAD'' then Write w5 (file_bytes file) else w5)
                               else
                                 (case (case parseRange rangeHeader fileSize of
                                          Inl err \<Rightarrow> None
                                        | Inr ranges \<Rightarrow>
                                            if length ranges \<noteq> 1 then None else Some (ranges ! 0)) of
                                    None \<Rightarrow>
                                      http_Error
                                        (Set_Header w3 ''Content-Range'' (''bytes */'' @ FormatInt fileSize))
                                        ''Invalid range'' 416
                                  | Some range0 \<Rightarrow>
                                      let start' = start range0;
                                          end' = end range0;
                                          contentLength = wrap64 (wrap64 (end' - start') + 1)
                                      in (case file_Seek file start' of
                                            Inl err \<Rightarrow> http_Error w3 ''Error seeking file'' 500
                                          | Inr reader \<Rightarrow>
                                              let w4 = Set_Header w3 ''Content-Range''
                                                         (''bytes '' @ FormatInt start' @ ''-'' @
                                                          FormatInt end' @ ''/'' @ FormatInt fileSize);
                                                  w5 = Set_Header w4 ''Content-Length'' (FormatInt contentLength);
                                                  w6 = WriteHeader w5 206
                                              in if Method r \<noteq> ''HEAD''
                                                 then Write w6 (take (nat contentLength) reader)
                                                 else w6)))))"

subsection \<open>Uploading\<close>

text \<open>
  Lines 381 to 406: the target directory. The result is the answer of an early return with
  the state it leaves, or the cleaned subdirectory, the target directory and the state after
  \<open>os.MkdirAll\<close>.
\<close>

definition uploadTarget ::
  "globals \<Rightarrow> os_state \<Rightarrow> ResponseWriter \<Rightarrow> string \<Rightarrow>
   (ResponseWriter \<times> os_state) + (string \<times> string \<times> os_state)" where
  "uploadTarget g os w subDir =
     (if subDir \<noteq> [] then
        let subDir' = filepath_Clean subDir;
            targetDir = filepath_Join [workingDir g, subDir']
        in case filepath_Abs (getwd os) targetDir of
             Inl err \<Rightarrow> Inl (http_Error w ''Invalid directory path'' 400, os)
           | Inr cleanTargetDir \<Rightarrow>
               if \<not> HasPrefix cleanTargetDir (cleanWorkingDir g os)
               then Inl (http_Error w ''Access denied'' 403, os)
               else
                 (case os_MkdirAll os targetDir of
                    (os1, Some err) \<Rightarrow>
                      Inl (http_Error w (''Error creating directory: '' @ Error_text err) 500, os1)
                  | (os1, None) \<Rightarrow> Inr (subDir', targetDir, os1))
      else Inr (subDir, workingDir g, os))"

definition uploadHandler ::
  "globals \<Rightarrow> os_state \<Rightarrow> ResponseWriter \<Rightarrow> Request \<Rightarrow> ResponseWriter \<times> os_state" where
  "uploadHandler g os w r =
     (if Method r = ''GET'' then
        (renderTemplate g (Set_Header w ''Content-Type'' ''text/html; charset=utf-8'')
           ''upload.html'' None, os)
      else if Method r \<noteq> ''POST'' then (http_Error w ''Method not allowed'' 405, os)
      else
        (case ParseMultipartForm r (100 * 2 ^ 20) of
           Inl err \<Rightarrow> (http_Error w (''Error parsing form: '' @ Error_text err) 400, os)
         | Inr form \<Rightarrow>
             (case FormFile form ''file'' of
                Inl err \<Rightarrow> (http_Error w (''Error retrieving file: '' @ Error_text err) 400, os)
              | Inr header \<Rightarrow>
                  (case uploadTarget g os w (FormValue r form ''directory'') of
                     Inl early \<Rightarrow> early
                   | Inr (subDir, targetDir, os1) \<Rightarrow>
                       let dstPath = filepath_Join [targetDir, filepath_Base (Filename header)]
                       in (case os_Create os1 dstPath of
                             Inl err \<Rightarrow>
                               (http_Error w (''Error creating file: '' @ Error_text err) 500, os1)
                           | Inr os2 \<Rightarrow>
                               (case io_Copy os2 dstPath (Content header) of
                                  (os3, Some err) \<Rightarrow>
                                    (http_Error w (''Error saving file: '' @ Error_text err) 500, os3)
                                | (os3, None) \<Rightarrow>
                                    let redirectPath = (if subDir \<noteq> [] then ''/'' @ subDir else ''/'')
                                    in (http_Redirect w (redirectPath @ ''?upload=success'') 303,
                                        os3)))))))"

section \<open>Predicates of the properties\<close>

text \<open>
  A download request that gets as far as the bytes of a regular file: the method is GET or
  HEAD, the path passes the check of lines 253 to 263, and the path joined to the working
  directory names a regular file with the bytes \<open>content\<close>.
\<close>

definition downloadPath :: "globals \<Rightarrow> Request \<Rightarrow> string" where
  "downloadPath g r = filepath_Join [workingDir g, TrimPrefix (URL_Path r) ''/download/'']"

definition servesFile :: "globals \<Rightarrow> os_state \<Rightarrow> Request \<Rightarrow> string \<Rightarrow> bool" where
  "servesFile g os r content \<longleftrightarrow>
     (Method r = ''GET'' \<or> Method r = ''HEAD'') \<and>
     (case filepath_Abs (getwd os) (downloadPath g r) of
        Inl _ \<Rightarrow> False
      | Inr cleanPath \<Rightarrow> HasPrefix cleanPath (cleanWorkingDir g os)) \<and>
     nodes os (downloadPath g r) = Some (File content)"

text \<open>The writer after the three headers every file download sets (lines 305 to 307).\<close>

definition fileHeaders :: "globals \<Rightarrow> ResponseWriter \<Rightarrow> string \<Rightarrow> ResponseWriter" where
  "fileHeaders g w fullPath =
     (let viewable = (intelligentMIME g \<and> snd (getMIMEType g fullPath));
          contentType = (if viewable then fst (getMIMEType g fullPath)
                         else ''application/octet-stream'');
          disposition = (if viewable then ''inline'' else ''attachment'');
          w1 = Set_Header w ''Content-Disposition''
                 (disposition @ ''; filename='' @ [CHR 0x22] @ filepath_Base fullPath @ [CHR 0x22]);
          w2 = Set_Header w1 ''Accept-Ranges'' ''bytes''
      in Set_Header w2 ''Content-Type'' contentType)"

text \<open>
  A browse request that gets as far as the entries of a directory: the method is GET, the
  path passes the check of lines 168 to 178, and the path joined to the working directory
  names a directory that \<open>os.ReadDir\<close> reads as \<open>entries\<close>.
\<close>

definition browsePath :: "globals \<Rightarrow> Request \<Rightarrow> string" where
  "browsePath g r = filepath_Join [workingDir g, TrimPrefix (URL_Path r) ''/'']"

definition browsesDirectory :: "globals \<Rightarrow> os_state \<Rightarrow> Request \<Rightarrow> DirEntry list \<Rightarrow> bool" where
  "browsesDirectory g os r entries \<longleftrightarrow>
     Method r = ''GET'' \<and>
     (case filepath_Abs (getwd os) (browsePath g r) of
        Inl _ \<Rightarrow> False
      | Inr cleanPath \<Rightarrow> HasPrefix cleanPath (cleanWorkingDir g os)) \<and>
     nodes os (browsePath g r) = Some (Directory (Inr entries))"

text \<open>
  What one directory entry contributes to a listing: nothing when its metadata cannot be
  read, and otherwise the one \<open>FileInfo\<close> built from its name and its metadata.
\<close>

definition listed :: "string \<Rightarrow> DirEntry \<Rightarrow> FileInfo list" where
  "listed requestedPath entry =
     (case entry_Info entry of
        Inl _ \<Rightarrow> []
      | Inr entryInfo \<Rightarrow>
          [\<lparr>Name = entry_Name entry,
            Path = filepath_Join [requestedPath, entry_Name entry],
            Size = info_Size entryInfo,
            ModTime = info_ModTime entryInfo,
            IsDir = entry_IsDir entry\<rparr>])"

text \<open>The page data of a listing, lines 220 to 233.\<close>

definition listingPage :: "string \<Rightarrow> FileInfo list \<Rightarrow> PageData" where
  "listingPage requestedPath files =
     \<lparr>CurrentPath = requestedPath,
      ParentPath = (if requestedPath \<noteq> [] then
                      (if filepath_Dir requestedPath = ''.'' then [] else filepath_Dir requestedPath)
                    else []),
      Files = files, Error = []\<rparr>"

text \<open>
  The target directory of an upload (lines 382 to 387), and whether a path names a
  directory.
\<close>

definition uploadDir :: "globals \<Rightarrow> Request \<Rightarrow> Form \<Rightarrow> string" where
  "uploadDir g r form =
     (if FormValue r form ''directory'' \<noteq> []
      then filepath_Join [workingDir g, filepath_Clean (FormValue r form ''directory'')]
      else workingDir g)"

definition isDirectory :: "os_state \<Rightarrow> string \<Rightarrow> bool" where
  "isDirectory os path = (case nodes os path of Some (Directory _) \<Rightarrow> True | _ \<Rightarrow> False)"

text \<open>
  An element of a cleaned path: not empty, not \<open>.\<close>, not \<open>..\<close>, without a separator.
  \<open>absPath\<close> writes the absolute path of a list of elements.
\<close>

definition goodElem :: "string \<Rightarrow> bool" where
  "goodElem e \<longleftrightarrow> e \<noteq> [] \<and> e \<noteq> ''.'' \<and> e \<noteq> ''..'' \<and> CHR ''/'' \<notin> set e"

definition absPath :: "string list \<Rightarrow> string" where
  "absPath elems = CHR ''/'' # strings_Join elems ''/''"

text \<open>
  The bytes of the value parts of a multipart body, which \<open>ReadForm\<close> counts against
  its limit: the parts that have a field name and no file name.
\<close>

definition valueBytes :: "Part list \<Rightarrow> int" where
  "valueBytes parts =
     (\<Sum>p \<leftarrow> filter (\<lambda>p. FormName p \<noteq> [] \<and> FileName p = []) parts. int (length (Data p)))"

text \<open>A file of one byte more than 100 MiB.\<close>

definition ex_bigFile :: string where
  "ex_bigFile = replicate (100 * 2 ^ 20 + 1) (CHR ''x'')"

text \<open>A form value of one byte more than 110 MiB.\<close>

definition ex_bigValue :: string where
  "ex_bigValue = replicate (110 * 2 ^ 20 + 1) (CHR ''x'')"

text \<open>
  A small server to evaluate the handlers on: the working directory \<open>/root\<close> with one
  file and one entry that can no longer be read, next to a directory \<open>/root2\<close> that is
  not served. MIME recognition is off and the templates write nothing.
\<close>

definition ex_globals :: globals where
  "ex_globals =
     \<lparr>workingDir = ''/root'', intelligentMIME = False,
      getMIMEType = (\<lambda>path. (''application/octet-stream'', False)),
      ExecuteTemplate = (\<lambda>name data. ([], None))\<rparr>"

definition ex_os :: os_state where
  "ex_os =
     \<lparr>getwd = Inr ''/'',
      nodes = [''/'' \<mapsto> Directory (Inr []),
               ''/root'' \<mapsto> Directory (Inr
                  [\<lparr>entry_Name = ''a.txt'', entry_IsDir = False,
                     entry_Info = Inr \<lparr>info_Size = 5, info_ModTime = 7\<rparr>\<rparr>,
                   \<lparr>entry_Name = ''gone'', entry_IsDir = False,
                     entry_Info = Inl ErrNotExist\<rparr>]),
               ''/root/a.txt'' \<mapsto> File ''hello'',
               ''/root/empty'' \<mapsto> File [],
               ''/root2'' \<mapsto> Directory (Inr []),
               ''/root2/secret'' \<mapsto> File ''TOPSECRET''],
      quota = None\<rparr>"

definition ex_get :: "string \<Rightarrow> string \<Rightarrow> Header \<Rightarrow> Request" where
  "ex_get method path header =
     \<lparr>Method = method, URL_Path = path, URL_Query = Map.empty, Header = header,
      Body = Inl ErrNotMultipart\<rparr>"

definition ex_post :: "Part list \<Rightarrow> Request" where
  "ex_post parts =
     \<lparr>Method = ''POST'', URL_Path = ''/upload'', URL_Query = Map.empty, Header = Map.empty,
      Body = Inr parts\<rparr>"

text \<open>The condition of line 687, as a predicate on a range: \<open>0 \<le> start \<le> end < size\<close>.\<close>

definition validRange :: "int \<Rightarrow> byteRange \<Rightarrow> bool" where
  "validRange size' r \<longleftrightarrow> 0 \<le> start r \<and> start r < size' \<and> start r \<le> end r \<and> end r < size'"

text \<open>The decimal digits, the bytes \<open>FormatInt\<close> writes after the sign.\<close>

definition isDigit :: "char \<Rightarrow> bool" where
  "isDigit c \<longleftrightarrow> c \<in> set ''0123456789''"

section \<open>Properties of the range parser\<close>



lemma Split_not_Nil: "Split s c \<noteq> []"
  by (induction s) (auto split: list.splits)

lemma Split_no_sep: "c \<notin> set s \<Longrightarrow> Split s c = [s]"
  by (induction s) auto

lemma Split_sep_first: "c \<notin> set s \<Longrightarrow> Split (c # s) c = [[], s]"
  by (simp add: Split_no_sep)


lemma parseRange_loop_valid:
  "parseRange_loop sz specs acc = Inr rs \<Longrightarrow> \<forall>r \<in> set acc. validRange sz r
   \<Longrightarrow> \<forall>r \<in> set rs. validRange sz r"
proof (induction specs arbitrary: acc)
  case Nil
  then show ?case by simp
next
  case (Cons spec specs)
  from Cons.prems(1) obtain st en where b: "rangeBounds sz spec = Inr (st, en)"
    and ok: "\<not> (st < 0 \<or> st \<ge> sz \<or> en < st \<or> en \<ge> sz)"
    and rest: "parseRange_loop sz specs (acc @ [\<lparr>start = st, end = en\<rparr>]) = Inr rs"
    by (auto split: sum.splits prod.splits if_splits)
  have "\<forall>r \<in> set (acc @ [\<lparr>start = st, end = en\<rparr>]). validRange sz r"
    using Cons.prems(2) ok by (auto simp: validRange_def)
  from Cons.IH[OF rest this] show ?case .
qed

lemma parseRange_loop_violation:
  "spec \<in> set specs \<Longrightarrow> rangeBounds sz spec = Inr (st, en)
   \<Longrightarrow> st < 0 \<or> st \<ge> sz \<or> en < st \<or> en \<ge> sz
   \<Longrightarrow> \<exists>err. parseRange_loop sz specs acc = Inl err"
proof (induction specs arbitrary: acc)
  case Nil
  then show ?case by simp
next
  case (Cons a specs)
  show ?case
  proof (cases "a = spec")
    case True
    with Cons.prems show ?thesis by auto
  next
    case False
    with Cons.prems have "spec \<in> set specs" by simp
    from Cons.IH[OF this Cons.prems(2,3)] show ?thesis
      by (auto split: sum.splits prod.splits)
  qed
qed

lemma parseRange_size0: "\<exists>err. parseRange s 0 = Inl err"
proof (cases "HasPrefix s ''bytes=''")
  case False
  then show ?thesis by (simp add: parseRange_def)
next
  case True
  obtain spec rest where sp: "Split (TrimPrefix s ''bytes='') (CHR '','') = spec # rest"
    using Split_not_Nil by (cases "Split (TrimPrefix s ''bytes='') (CHR '','')") auto
  show ?thesis using True
    by (auto simp: parseRange_def sp split: sum.splits prod.splits)
qed




lemma digit_cases:
  "0 \<le> d \<Longrightarrow> d < 10 \<Longrightarrow>
   d = 0 \<or> d = 1 \<or> d = 2 \<or> d = 3 \<or> d = 4 \<or> d = 5 \<or> d = 6 \<or> d = 7 \<or> d = 8 \<or> d = (9::int)"
  by arith

lemma isDigit_digitChar: "0 \<le> d \<Longrightarrow> d < 10 \<Longrightarrow> isDigit (digitChar d)"
  by (drule (1) digit_cases) (auto simp: isDigit_def digitChar_def)

lemma digitVal_digitChar: "0 \<le> d \<Longrightarrow> d < 10 \<Longrightarrow> digitVal (digitChar d) = Some d"
  by (drule (1) digit_cases) (auto simp: digitVal_def digitChar_def)

lemma digits10_isDigit: "0 \<le> n \<Longrightarrow> \<forall>c \<in> set (digits10 n). isDigit c"
proof (induction n rule: digits10.induct)
  case (1 n)
  show ?case
  proof (cases "n < 10")
    case True
    with 1(2) show ?thesis by (subst digits10.simps) (simp add: isDigit_digitChar)
  next
    case False
    then have "0 \<le> n div 10" by simp
    with 1(1)[OF False] False show ?thesis
      by (subst digits10.simps) (simp add: isDigit_digitChar)
  qed
qed

lemma digits10_not_Nil: "digits10 n \<noteq> []"
  by (subst digits10.simps) simp

lemma ParseUint_loop_append:
  "ParseUint_loop n (xs @ ys) =
     (case ParseUint_loop n xs of Inl e \<Rightarrow> Inl e | Inr m \<Rightarrow> ParseUint_loop m ys)"
  by (induction xs arbitrary: n) (auto split: option.splits)

lemma ParseUint_loop_digits10:
  "0 \<le> n \<Longrightarrow> n \<le> maxUint64 \<Longrightarrow> ParseUint_loop 0 (digits10 n) = Inr n"
proof (induction n rule: digits10.induct)
  case (1 n)
  show ?case
  proof (cases "n < 10")
    case True
    with 1(2) have "digitVal (digitChar n) = Some n" by (simp add: digitVal_digitChar)
    with True 1(2,3) show ?thesis
      by (subst digits10.simps) (simp add: maxUint64_def)
  next
    case False
    have d: "digitVal (digitChar (n mod 10)) = Some (n mod 10)"
      by (simp add: digitVal_digitChar)
    have a: "0 \<le> n div 10" "n div 10 \<le> maxUint64" using 1(2,3) False by auto
    have ih: "ParseUint_loop 0 (digits10 (n div 10)) = Inr (n div 10)"
      using 1(1)[OF False a] .
    have c: "\<not> n div 10 \<ge> maxUint64 div 10 + 1" using 1(3) by (simp add: maxUint64_def)
    have e: "n div 10 * 10 + n mod 10 = n" by simp
    show ?thesis
      using False 1(3) c
      by (subst digits10.simps) (simp add: ParseUint_loop_append ih d e del: ParseUint_loop.simps add: ParseUint_loop.simps(1) ParseUint_loop.simps(2)[of "n div 10"])
  qed
qed

lemma hd_digits10: "0 \<le> n \<Longrightarrow> isDigit (hd (digits10 n))"
  using digits10_isDigit[of n] digits10_not_Nil[of n] by (cases "digits10 n") auto

lemma ParseInt_digits10:
  assumes "0 \<le> n" "n < 2 ^ 63"
  shows "ParseInt (digits10 n) = Inr n"
proof -
  have "hd (digits10 n) \<noteq> CHR ''-''" "hd (digits10 n) \<noteq> CHR ''+''"
    using hd_digits10[OF assms(1)] by (auto simp: isDigit_def)
  moreover have "ParseUint (digits10 n) = Inr n"
    using assms by (simp add: ParseUint_def digits10_not_Nil ParseUint_loop_digits10 maxUint64_def)
  ultimately show ?thesis using assms
    by (simp add: ParseInt_def digits10_not_Nil)
qed

lemma leadingSpace_minus: "leadingSpace (CHR ''-'' # s) = 0"
  by (simp add: leadingSpace_def spaceRunes_def HasPrefix_def)

lemma trailingSpace_digit:
  assumes "isDigit c"
  shows "trailingSpace (s @ [c]) = 0"
proof -
  have "c \<notin> {CHR 0x09, CHR 0x0A, CHR 0x0B, CHR 0x0C, CHR 0x0D, CHR 0x20, CHR 0x85, CHR 0xA0,
              CHR 0x80, CHR 0x81, CHR 0x82, CHR 0x83, CHR 0x84, CHR 0x86, CHR 0x87, CHR 0x88,
              CHR 0x89, CHR 0x8A, CHR 0xA8, CHR 0xA9, CHR 0xAF, CHR 0x9F}"
    using assms by (auto simp: isDigit_def)
  then show ?thesis
    by (simp add: trailingSpace_def spaceRunes_def HasPrefix_def)
qed

lemma TrimSpace_minus_digits:
  assumes "s \<noteq> []" "\<forall>c \<in> set s. isDigit c"
  shows "TrimSpace (CHR ''-'' # s) = CHR ''-'' # s"
proof -
  obtain xs c where s: "s = xs @ [c]" using assms(1) by (cases s rule: rev_cases) auto
  then have "isDigit c" using assms(2) by simp
  then have "trailingSpace ((CHR ''-'' # xs) @ [c]) = 0" by (rule trailingSpace_digit)
  then have "trailingSpace (CHR ''-'' # s) = 0" by (simp add: s)
  then show ?thesis
    by (simp add: TrimSpace_def leadingSpace_minus TrimLeftSpace.simps[of "CHR ''-'' # s"] TrimRightSpace.simps[of "CHR ''-'' # s"])
qed


lemma wrap64_id: "- (2 ^ 63) \<le> x \<Longrightarrow> x < 2 ^ 63 \<Longrightarrow> wrap64 x = x"
  by (simp add: wrap64_def)

lemma isDigit_not_sep: "isDigit c \<Longrightarrow> c \<noteq> CHR '','' \<and> c \<noteq> CHR ''-''"
  by (auto simp: isDigit_def)

lemma rangeBounds_suffix:
  assumes "0 \<le> n" "n < 2 ^ 63"
  shows "rangeBounds sz (CHR ''-'' # digits10 n) =
         Inr (if wrap64 (sz - n) < 0 then 0 else wrap64 (sz - n), wrap64 (sz - 1))"
proof -
  have nd: "CHR ''-'' \<notin> set (digits10 n)"
    using digits10_isDigit[OF assms(1)] isDigit_not_sep by blast
  have t: "TrimSpace (CHR ''-'' # digits10 n) = CHR ''-'' # digits10 n"
    by (rule TrimSpace_minus_digits) (simp_all add: digits10_not_Nil digits10_isDigit[OF assms(1)])
  have sp: "Split (CHR ''-'' # digits10 n) (CHR ''-'') = [[], digits10 n]"
    using nd by (rule Split_sep_first)
  show ?thesis
    by (simp add: rangeBounds_def t sp ParseInt_digits10[OF assms] Let_def del: Split.simps)
qed

lemma parseRange_suffix:
  assumes "1 \<le> S" "S < 2 ^ 63" "1 \<le> N" "N < 2 ^ 63"
  shows "parseRange (''bytes=-'' @ FormatInt N) S = Inr [\<lparr>start = max 0 (S - N), end = S - 1\<rparr>]"
proof -
  have f: "FormatInt N = digits10 N" using assms by (simp add: FormatInt_def)
  have p: "HasPrefix (''bytes=-'' @ digits10 N) ''bytes=''"
    by (simp add: HasPrefix_def)
  have tp: "TrimPrefix (''bytes=-'' @ digits10 N) ''bytes='' = CHR ''-'' # digits10 N"
    by (simp add: TrimPrefix_def HasPrefix_def)
  have nc: "CHR '','' \<notin> set (CHR ''-'' # digits10 N)"
    using digits10_isDigit[of N] isDigit_not_sep assms by auto
  have sp: "Split (CHR ''-'' # digits10 N) (CHR '','') = [CHR ''-'' # digits10 N]"
    using nc by (rule Split_no_sep)
  have w1: "wrap64 (S - N) = S - N" using assms by (intro wrap64_id) auto
  have w2: "wrap64 (S - 1) = S - 1" using assms by (intro wrap64_id) auto
  have rb: "rangeBounds S (CHR ''-'' # digits10 N) = Inr (max 0 (S - N), S - 1)"
    using assms by (simp add: rangeBounds_suffix w1 w2 max_def)
  have "parseRange (''bytes=-'' @ FormatInt N) S =
        parseRange_loop S (Split (TrimPrefix (''bytes=-'' @ digits10 N) ''bytes='') (CHR '','')) []"
    by (simp only: parseRange_def f p simp_thms if_False)
  also have "\<dots> = parseRange_loop S [CHR ''-'' # digits10 N] []"
    by (simp only: tp sp)
  also have "\<dots> = Inr [\<lparr>start = max 0 (S - N), end = S - 1\<rparr>]"
    using assms by (auto simp add: rb max_def)
  finally show ?thesis .
qed

lemma ParseUint_loop_digits10_overflow:
  "0 \<le> n \<Longrightarrow> maxUint64 < n \<Longrightarrow> ParseUint_loop 0 (digits10 n) = Inl ErrRange"
proof (induction n rule: digits10.induct)
  case (1 n)
  have ge: "\<not> n < 10" using 1(3) by (simp add: maxUint64_def)
  have d: "digitVal (digitChar (n mod 10)) = Some (n mod 10)"
    by (simp add: digitVal_digitChar)
  have e: "n div 10 * 10 + n mod 10 = n" by simp
  have nn: "0 \<le> n div 10" using 1(2) by simp
  have unfold: "digits10 n = digits10 (n div 10) @ [digitChar (n mod 10)]"
    using ge by (subst digits10.simps) simp
  show ?case
  proof (cases "maxUint64 < n div 10")
    case True
    from 1(1)[OF ge nn True] show ?thesis
      by (simp add: unfold ParseUint_loop_append)
  next
    case False
    then have "ParseUint_loop 0 (digits10 (n div 10)) = Inr (n div 10)"
      using nn by (intro ParseUint_loop_digits10) auto
    moreover have "ParseUint_loop (n div 10) [digitChar (n mod 10)] = Inl ErrRange"
      using 1(3) by (simp add: d e)
    ultimately show ?thesis
      by (simp add: unfold ParseUint_loop_append del: ParseUint_loop.simps)
  qed
qed

lemma ParseInt_digits10_range:
  assumes "2 ^ 63 \<le> n"
  shows "ParseInt (digits10 n) = Inl ErrRange"
proof -
  have n0: "0 \<le> n" using assms by simp
  have sign: "hd (digits10 n) \<noteq> CHR ''-''" "hd (digits10 n) \<noteq> CHR ''+''"
    using hd_digits10[OF n0] by (auto simp: isDigit_def)
  show ?thesis
  proof (cases "maxUint64 < n")
    case True
    then have "ParseUint (digits10 n) = Inl ErrRange"
      using n0 by (simp add: ParseUint_def digits10_not_Nil ParseUint_loop_digits10_overflow)
    with sign show ?thesis by (simp add: ParseInt_def digits10_not_Nil)
  next
    case False
    then have "ParseUint (digits10 n) = Inr n"
      using n0 by (simp add: ParseUint_def digits10_not_Nil ParseUint_loop_digits10)
    with sign assms show ?thesis by (simp add: ParseInt_def digits10_not_Nil)
  qed
qed

lemma rangeBounds_suffix_error:
  assumes "0 \<le> n" "ParseInt (digits10 n) = Inl err"
  shows "rangeBounds sz (CHR ''-'' # digits10 n) = Inl err"
proof -
  have nd: "CHR ''-'' \<notin> set (digits10 n)"
    using digits10_isDigit[OF assms(1)] isDigit_not_sep by blast
  have t: "TrimSpace (CHR ''-'' # digits10 n) = CHR ''-'' # digits10 n"
    by (rule TrimSpace_minus_digits) (simp_all add: digits10_not_Nil digits10_isDigit[OF assms(1)])
  have sp: "Split (CHR ''-'' # digits10 n) (CHR ''-'') = [[], digits10 n]"
    using nd by (rule Split_sep_first)
  show ?thesis
    by (simp add: rangeBounds_def t sp assms(2) Let_def del: Split.simps)
qed

lemma parseRange_suffix_large:
  assumes "2 ^ 63 \<le> N"
  shows "parseRange (''bytes=-'' @ FormatInt N) S = Inl ErrRange"
proof -
  have n0: "0 \<le> N" using assms by simp
  have f: "FormatInt N = digits10 N" using n0 by (simp add: FormatInt_def)
  have p: "HasPrefix (''bytes=-'' @ digits10 N) ''bytes=''"
    by (simp add: HasPrefix_def)
  have tp: "TrimPrefix (''bytes=-'' @ digits10 N) ''bytes='' = CHR ''-'' # digits10 N"
    by (simp add: TrimPrefix_def HasPrefix_def)
  have nc: "CHR '','' \<notin> set (CHR ''-'' # digits10 N)"
    using digits10_isDigit[OF n0] isDigit_not_sep by auto
  have sp: "Split (CHR ''-'' # digits10 N) (CHR '','') = [CHR ''-'' # digits10 N]"
    using nc by (rule Split_no_sep)
  have rb: "rangeBounds S (CHR ''-'' # digits10 N) = Inl ErrRange"
    using n0 ParseInt_digits10_range[OF assms] by (rule rangeBounds_suffix_error)
  have "parseRange (''bytes=-'' @ FormatInt N) S =
        parseRange_loop S (Split (TrimPrefix (''bytes=-'' @ digits10 N) ''bytes='') (CHR '','')) []"
    by (simp only: parseRange_def f p simp_thms if_False)
  also have "\<dots> = parseRange_loop S [CHR ''-'' # digits10 N] []"
    by (simp only: tp sp)
  also have "\<dots> = Inl ErrRange"
    by (simp add: rb)
  finally show ?thesis .
qed


text \<open>
  C3. After start and end of a spec are computed, a spec that violates one of
  \<open>0 \<le> start\<close>, \<open>start < size\<close>, \<open>end \<ge> start\<close>, \<open>end < size\<close> makes
  \<open>parseRange\<close> return an error for the whole header, whatever the other specs of the
  list are; and when \<open>parseRange\<close> returns ranges, every one of them satisfies the four
  conditions.
\<close>

theorem parseRange_all_or_nothing:
  "(spec \<in> set (Split (TrimPrefix s ''bytes='') (CHR '','')) \<and>
    rangeBounds size' spec = Inr (start', end') \<and>
    \<not> (0 \<le> start' \<and> start' < size' \<and> end' \<ge> start' \<and> end' < size')
      \<longrightarrow> (\<exists>err. parseRange s size' = Inl err)) \<and>
   (parseRange s size' = Inr ranges \<and> r \<in> set ranges
      \<longrightarrow> 0 \<le> start r \<and> start r < size' \<and> end r \<ge> start r \<and> end r < size')"
proof -
  have violated: "\<exists>err. parseRange s size' = Inl err"
    if a: "spec \<in> set (Split (TrimPrefix s ''bytes='') (CHR '',''))"
      "rangeBounds size' spec = Inr (start', end')"
      "\<not> (0 \<le> start' \<and> start' < size' \<and> end' \<ge> start' \<and> end' < size')"
  proof (cases "HasPrefix s ''bytes=''")
    case False
    then show ?thesis by (simp add: parseRange_def)
  next
    case True
    from a(3) have v: "start' < 0 \<or> start' \<ge> size' \<or> end' < start' \<or> end' \<ge> size'"
      by auto
    from parseRange_loop_violation[OF a(1,2) v, of "[]"] True
    show ?thesis by (simp add: parseRange_def)
  qed
  have returned: "0 \<le> start r \<and> start r < size' \<and> end r \<ge> start r \<and> end r < size'"
    if b: "parseRange s size' = Inr ranges" "r \<in> set ranges"
  proof -
    from b(1) have "parseRange_loop size' (Split (TrimPrefix s ''bytes='') (CHR '','')) [] = Inr ranges"
      by (auto simp: parseRange_def split: if_splits)
    from parseRange_loop_valid[OF this] b(2) have "validRange size' r" by simp
    then show ?thesis by (simp add: validRange_def)
  qed
  from violated returned show ?thesis by blast
qed

text \<open>
  C3 on two headers for a resource of 1000 bytes: \<open>bytes=5-6,9-8\<close>, whose second spec
  has its end before its start, is rejected as a whole, and the two ranges of
  \<open>bytes=5-6, 7-8\<close> are returned within the bounds.
\<close>

theorem parseRange_all_or_nothing_witness:
  "(''9-8'' \<in> set (Split (TrimPrefix ''bytes=5-6,9-8'' ''bytes='') (CHR '','')) \<and>
    rangeBounds 1000 ''9-8'' = Inr (9, 8) \<and>
    \<not> (0 \<le> (9::int) \<and> (9::int) < 1000 \<and> (8::int) \<ge> 9 \<and> (8::int) < 1000)) \<and>
   (\<exists>err. parseRange ''bytes=5-6,9-8'' 1000 = Inl err) \<and>
   parseRange ''bytes=5-6, 7-8'' 1000 = Inr [\<lparr>start = 5, end = 6\<rparr>, \<lparr>start = 7, end = 8\<rparr>] \<and>
   \<lparr>start = 7, end = 8\<rparr> \<in> set [\<lparr>start = 5, end = 6\<rparr>, \<lparr>start = 7, end = 8\<rparr>] \<and>
   (0 \<le> start \<lparr>start = 7, end = 8\<rparr> \<and> start \<lparr>start = 7, end = 8\<rparr> < (1000::int) \<and>
    end \<lparr>start = 7, end = 8\<rparr> \<ge> start \<lparr>start = 7, end = 8\<rparr> \<and>
    end \<lparr>start = 7, end = 8\<rparr> < (1000::int))"
proof -
  have h1: "''9-8'' \<in> set (Split (TrimPrefix ''bytes=5-6,9-8'' ''bytes='') (CHR '','')) \<and>
    rangeBounds 1000 ''9-8'' = Inr (9, 8) \<and>
    \<not> (0 \<le> (9::int) \<and> (9::int) < 1000 \<and> (8::int) \<ge> 9 \<and> (8::int) < 1000)"
    by code_simp
  have h2: "parseRange ''bytes=5-6, 7-8'' 1000 = Inr [\<lparr>start = 5, end = 6\<rparr>, \<lparr>start = 7, end = 8\<rparr>] \<and>
    \<lparr>start = 7, end = 8\<rparr> \<in> set [\<lparr>start = 5, end = 6\<rparr>, \<lparr>start = 7, end = 8\<rparr>]"
    by code_simp
  from parseRange_all_or_nothing[of "''9-8''" "''bytes=5-6,9-8''" 1000 9 8] h1
  have c1: "\<exists>err. parseRange ''bytes=5-6,9-8'' 1000 = Inl err" by blast
  from parseRange_all_or_nothing[of _ "''bytes=5-6, 7-8''" 1000 _ _
      "[\<lparr>start = 5, end = 6\<rparr>, \<lparr>start = 7, end = 8\<rparr>]" "\<lparr>start = 7, end = 8\<rparr>"] h2
  have c2: "0 \<le> start \<lparr>start = 7, end = 8\<rparr> \<and> start \<lparr>start = 7, end = 8\<rparr> < (1000::int) \<and>
    end \<lparr>start = 7, end = 8\<rparr> \<ge> start \<lparr>start = 7, end = 8\<rparr> \<and>
    end \<lparr>start = 7, end = 8\<rparr> < (1000::int)" by blast
  from h1 h2 c1 c2 show ?thesis by blast
qed

text \<open>
  C4, as the code has it. For a resource of size \<open>S \<ge> 1\<close> and a suffix length \<open>N\<close>
  with \<open>1 \<le> N \<le> 2^63 - 1\<close>, written in decimal, the header \<open>bytes=-N\<close> parses to
  the single range \<open>(max(0, S - N), S - 1)\<close>. The suffix length is read by
  \<open>strconv.ParseInt\<close> into an \<open>int64\<close>: for every \<open>N \<ge> 2^63\<close>, whatever the size
  of the resource, \<open>ParseInt\<close> reports a range error and \<open>parseRange\<close> rejects the
  header.
\<close>

theorem parseRange_suffix_int64:
  "(1 \<le> S \<and> S < 2 ^ 63 \<and> 1 \<le> N \<and> N < 2 ^ 63 \<longrightarrow>
    parseRange (''bytes=-'' @ FormatInt N) S = Inr [\<lparr>start = max 0 (S - N), end = S - 1\<rparr>]) \<and>
   (2 ^ 63 \<le> N \<longrightarrow> parseRange (''bytes=-'' @ FormatInt N) S = Inl ErrRange)"
  using parseRange_suffix parseRange_suffix_large by blast

text \<open>
  C4 for \<open>bytes=-500\<close> on a resource of 1000 bytes and on one of 100 bytes, and for
  \<open>N = 2^64\<close> on a resource of 1000 bytes.
\<close>

theorem parseRange_suffix_int64_witness:
  "(1 \<le> (1000::int) \<and> (1000::int) < 2 ^ 63 \<and> 1 \<le> (500::int) \<and> (500::int) < 2 ^ 63) \<and>
   parseRange (''bytes=-'' @ FormatInt 500) 1000 = Inr [\<lparr>start = max 0 (1000 - 500), end = 1000 - 1\<rparr>] \<and>
   (1 \<le> (100::int) \<and> (100::int) < 2 ^ 63 \<and> 1 \<le> (500::int) \<and> (500::int) < 2 ^ 63) \<and>
   parseRange (''bytes=-'' @ FormatInt 500) 100 = Inr [\<lparr>start = max 0 (100 - 500), end = 100 - 1\<rparr>] \<and>
   2 ^ 63 \<le> (18446744073709551616::int) \<and>
   parseRange (''bytes=-'' @ FormatInt 18446744073709551616) 1000 = Inl ErrRange"
proof -
  have h1: "1 \<le> (1000::int) \<and> (1000::int) < 2 ^ 63 \<and> 1 \<le> (500::int) \<and> (500::int) < 2 ^ 63"
    by simp
  have h2: "1 \<le> (100::int) \<and> (100::int) < 2 ^ 63 \<and> 1 \<le> (500::int) \<and> (500::int) < 2 ^ 63"
    by simp
  have h3: "2 ^ 63 \<le> (18446744073709551616::int)"
    by simp
  from parseRange_suffix_int64[of 1000 500] h1 parseRange_suffix_int64[of 100 500] h2
    parseRange_suffix_int64[of 1000 18446744073709551616] h3
  show ?thesis by blast
qed

text \<open>
  The claim C4 without the bound on \<open>N\<close> fails: \<open>N = 2^63\<close> on a resource of 1000 bytes
  is rejected, where the claim promises the range \<open>(0, 999)\<close>.
\<close>

theorem parseRange_suffix_counterexample:
  "FormatInt 9223372036854775808 = ''9223372036854775808'' \<and>
   parseRange ''bytes=-9223372036854775808'' 1000 = Inl ErrRange \<and>
   parseRange ''bytes=-9223372036854775808'' 1000 \<noteq>
     Inr [\<lparr>start = max 0 (1000 - 9223372036854775808), end = 1000 - 1\<rparr>]"
  by code_simp

section \<open>Properties of the download handler\<close>



lemma servesFile_facts:
  assumes "servesFile g os r content"
  obtains cleanPath where
    "\<not> (Method r \<noteq> ''GET'' \<and> Method r \<noteq> ''HEAD'')"
    "filepath_Abs (getwd os) (filepath_Join [workingDir g, TrimPrefix (URL_Path r) ''/download/'']) = Inr cleanPath"
    "HasPrefix cleanPath (cleanWorkingDir g os)"
    "os_Open os (filepath_Join [workingDir g, TrimPrefix (URL_Path r) ''/download/'']) = Inr (File content)"
  using assms
  by (auto simp: servesFile_def downloadPath_def os_Open_def os_Stat_def split: sum.splits)

lemma download_no_range:
  assumes "servesFile g os r content" "Header_Get (Header r) ''Range'' = []"
  shows "downloadHandler g os w r =
         (let w5 = WriteHeader (Set_Header (fileHeaders g w (downloadPath g r)) ''Content-Length''
                      (FormatInt (int (length content)))) 200
          in if Method r \<noteq> ''HEAD'' then Write w5 content else w5)"
proof -
  from assms(1) obtain cleanPath where f:
    "\<not> (Method r \<noteq> ''GET'' \<and> Method r \<noteq> ''HEAD'')"
    "filepath_Abs (getwd os) (filepath_Join [workingDir g, TrimPrefix (URL_Path r) ''/download/'']) = Inr cleanPath"
    "HasPrefix cleanPath (cleanWorkingDir g os)"
    "os_Open os (filepath_Join [workingDir g, TrimPrefix (URL_Path r) ''/download/'']) = Inr (File content)"
    by (rule servesFile_facts)
  show ?thesis
    unfolding downloadHandler_def
    by (simp add: f assms(2) downloadPath_def fileHeaders_def file_Stat_def node_IsDir_def
        node_Size_def file_bytes_def Let_def)
qed

lemma download_bad_range:
  assumes "servesFile g os r content" "Header_Get (Header r) ''Range'' \<noteq> []"
    "\<forall>x. parseRange (Header_Get (Header r) ''Range'') (int (length content)) \<noteq> Inr [x]"
  shows "downloadHandler g os w r =
         http_Error (Set_Header (fileHeaders g w (downloadPath g r)) ''Content-Range''
                       (''bytes */'' @ FormatInt (int (length content))))
           ''Invalid range'' 416"
proof -
  have n: "(case parseRange (Header_Get (Header r) ''Range'') (int (length content)) of
              Inl err \<Rightarrow> None
            | Inr ranges \<Rightarrow> if length ranges \<noteq> 1 then None else Some (ranges ! 0)) = None"
  proof (cases "parseRange (Header_Get (Header r) ''Range'') (int (length content))")
    case (Inl a)
    then show ?thesis by simp
  next
    case (Inr rs)
    with assms(3) have "length rs \<noteq> 1"
      by (cases rs) (auto simp: length_Suc_conv)
    with Inr show ?thesis by simp
  qed
  from assms(1) obtain cleanPath where f:
    "\<not> (Method r \<noteq> ''GET'' \<and> Method r \<noteq> ''HEAD'')"
    "filepath_Abs (getwd os) (filepath_Join [workingDir g, TrimPrefix (URL_Path r) ''/download/'']) = Inr cleanPath"
    "HasPrefix cleanPath (cleanWorkingDir g os)"
    "os_Open os (filepath_Join [workingDir g, TrimPrefix (URL_Path r) ''/download/'']) = Inr (File content)"
    by (rule servesFile_facts)
  show ?thesis
    unfolding downloadHandler_def
    by (simp add: f assms(2) n downloadPath_def fileHeaders_def file_Stat_def node_IsDir_def
        node_Size_def file_bytes_def Let_def)
qed

lemma download_one_range:
  assumes "servesFile g os r content"
    "parseRange (Header_Get (Header r) ''Range'') (int (length content)) = Inr [\<lparr>start = a, end = b\<rparr>]"
  shows "downloadHandler g os w r =
         (if a < 0 then http_Error (fileHeaders g w (downloadPath g r)) ''Error seeking file'' 500
          else
            let w4 = Set_Header (fileHeaders g w (downloadPath g r)) ''Content-Range''
                       (''bytes '' @ FormatInt a @ ''-'' @ FormatInt b @ ''/'' @
                        FormatInt (int (length content)));
                w5 = Set_Header w4 ''Content-Length'' (FormatInt (wrap64 (wrap64 (b - a) + 1)));
                w6 = WriteHeader w5 206
            in if Method r \<noteq> ''HEAD''
               then Write w6 (take (nat (wrap64 (wrap64 (b - a) + 1))) (drop (nat a) content))
               else w6)"
proof -
  have ne: "Header_Get (Header r) ''Range'' \<noteq> []"
    using assms(2) by (auto simp: parseRange_def HasPrefix_def)
  from assms(1) obtain cleanPath where f:
    "\<not> (Method r \<noteq> ''GET'' \<and> Method r \<noteq> ''HEAD'')"
    "filepath_Abs (getwd os) (filepath_Join [workingDir g, TrimPrefix (URL_Path r) ''/download/'']) = Inr cleanPath"
    "HasPrefix cleanPath (cleanWorkingDir g os)"
    "os_Open os (filepath_Join [workingDir g, TrimPrefix (URL_Path r) ''/download/'']) = Inr (File content)"
    by (rule servesFile_facts)
  show ?thesis
    unfolding downloadHandler_def
    by (simp add: f ne assms(2) downloadPath_def fileHeaders_def file_Stat_def node_IsDir_def
        node_Size_def file_bytes_def file_Seek_def Let_def)
qed


lemma wrap64_length:
  assumes "0 \<le> a" "a \<le> b" "b < S" "S < 2 ^ 63"
  shows "wrap64 (wrap64 (b - a) + 1) = b - a + 1"
proof -
  have "wrap64 (b - a) = b - a" using assms by (intro wrap64_id) auto
  moreover have "wrap64 (b - a + 1) = b - a + 1" using assms by (intro wrap64_id) auto
  ultimately show ?thesis by simp
qed

lemma parseRange_single_valid:
  assumes "parseRange s S = Inr [\<lparr>start = a, end = b\<rparr>]"
  shows "0 \<le> a \<and> a \<le> b \<and> b < S"
proof -
  from assms have "parseRange_loop S (Split (TrimPrefix s ''bytes='') (CHR '','')) [] =
      Inr [\<lparr>start = a, end = b\<rparr>]"
    by (auto simp: parseRange_def split: if_splits)
  from parseRange_loop_valid[OF this] have "validRange S \<lparr>start = a, end = b\<rparr>" by simp
  then show ?thesis by (simp add: validRange_def)
qed

text \<open>
  C2. A download of a regular file of \<open>S\<close> bytes whose Range header parses to the one
  range \<open>(start, end)\<close> (so \<open>0 \<le> start \<le> end < S\<close>) answers with status 206, the
  header \<open>Content-Range: bytes start-end/S\<close> and the header \<open>Content-Length\<close> of
  \<open>end - start + 1\<close>; the body of a GET is exactly the \<open>end - start + 1\<close> bytes of the
  file from offset \<open>start\<close> to offset \<open>end\<close>, and a HEAD has no body.
\<close>

theorem partial_download:
  "servesFile g os r content \<and> int (length content) < 2 ^ 63 \<and>
   parseRange (Header_Get (Header r) ''Range'') (int (length content)) =
     Inr [\<lparr>start = a, end = b\<rparr>] \<longrightarrow>
   (let w = downloadHandler g os (newResponseWriter r) r
    in 0 \<le> a \<and> a \<le> b \<and> b < int (length content) \<and>
       status w = 206 \<and>
       Header_Get (headers w) ''Content-Range'' =
         ''bytes '' @ FormatInt a @ ''-'' @ FormatInt b @ ''/'' @ FormatInt (int (length content)) \<and>
       Header_Get (headers w) ''Content-Length'' = FormatInt (b - a + 1) \<and>
       (Method r = ''GET'' \<longrightarrow>
          w_body w = take (nat (b - a + 1)) (drop (nat a) content) \<and>
          int (length (w_body w)) = b - a + 1 \<and>
          (\<forall>i < length (w_body w). w_body w ! i = content ! (nat a + i))) \<and>
       (Method r = ''HEAD'' \<longrightarrow> w_body w = []))"
proof (intro impI)
  assume h: "servesFile g os r content \<and> int (length content) < 2 ^ 63 \<and>
   parseRange (Header_Get (Header r) ''Range'') (int (length content)) =
     Inr [\<lparr>start = a, end = b\<rparr>]"
  then have sf: "servesFile g os r content" and sz: "int (length content) < 2 ^ 63"
    and pr: "parseRange (Header_Get (Header r) ''Range'') (int (length content)) =
     Inr [\<lparr>start = a, end = b\<rparr>]" by auto
  from parseRange_single_valid[OF pr] have v: "0 \<le> a" "a \<le> b" "b < int (length content)"
    by auto
  have cl: "wrap64 (wrap64 (b - a) + 1) = b - a + 1"
    using v sz by (rule wrap64_length)
  have m: "Method r = ''GET'' \<or> Method r = ''HEAD''" using sf by (simp add: servesFile_def)
  have len: "int (length (take (nat (b - a + 1)) (drop (nat a) content))) = b - a + 1"
    using v by auto
  have nth: "\<forall>i < length (take (nat (b - a + 1)) (drop (nat a) content)).
      take (nat (b - a + 1)) (drop (nat a) content) ! i = content ! (nat a + i)"
    using v by auto
  show "let w = downloadHandler g os (newResponseWriter r) r
    in 0 \<le> a \<and> a \<le> b \<and> b < int (length content) \<and>
       status w = 206 \<and>
       Header_Get (headers w) ''Content-Range'' =
         ''bytes '' @ FormatInt a @ ''-'' @ FormatInt b @ ''/'' @ FormatInt (int (length content)) \<and>
       Header_Get (headers w) ''Content-Length'' = FormatInt (b - a + 1) \<and>
       (Method r = ''GET'' \<longrightarrow>
          w_body w = take (nat (b - a + 1)) (drop (nat a) content) \<and>
          int (length (w_body w)) = b - a + 1 \<and>
          (\<forall>i < length (w_body w). w_body w ! i = content ! (nat a + i))) \<and>
       (Method r = ''HEAD'' \<longrightarrow> w_body w = [])"
    unfolding download_one_range[OF sf pr] cl
    using v m len nth
    by (auto simp: Let_def fileHeaders_def newResponseWriter_def status_def headers_def
        WriteHeader_def Write_def Set_Header_def Header_Get_def Header_Set_def)
qed

text \<open>
  C6. A GET download of a regular file of \<open>S\<close> bytes without a Range header answers
  with status 200, \<open>Accept-Ranges: bytes\<close>, \<open>Content-Length: S\<close> and the whole file
  as the body; the same request with the method HEAD gets the same status and the same
  headers and no body.
\<close>

theorem full_download:
  "servesFile g os r content \<and> Method r = ''GET'' \<and> Header r ''Range'' = None \<longrightarrow>
   (let w = downloadHandler g os (newResponseWriter r) r;
        r' = r\<lparr>Method := ''HEAD''\<rparr>;
        w' = downloadHandler g os (newResponseWriter r') r'
    in status w = 200 \<and>
       Header_Get (headers w) ''Accept-Ranges'' = ''bytes'' \<and>
       Header_Get (headers w) ''Content-Length'' = FormatInt (int (length content)) \<and>
       w_body w = content \<and>
       status w' = 200 \<and> headers w' = headers w \<and> w_body w' = [])"
proof (intro impI)
  assume h: "servesFile g os r content \<and> Method r = ''GET'' \<and> Header r ''Range'' = None"
  then have sf: "servesFile g os r content" and m: "Method r = ''GET''"
    and nr: "Header_Get (Header r) ''Range'' = []"
    by (auto simp: Header_Get_def)
  have sf': "servesFile g os (r\<lparr>Method := ''HEAD''\<rparr>) content"
    using sf by (simp add: servesFile_def downloadPath_def)
  have nr': "Header_Get (Header (r\<lparr>Method := ''HEAD''\<rparr>)) ''Range'' = []"
    using nr by simp
  show "let w = downloadHandler g os (newResponseWriter r) r;
        r' = r\<lparr>Method := ''HEAD''\<rparr>;
        w' = downloadHandler g os (newResponseWriter r') r'
    in status w = 200 \<and>
       Header_Get (headers w) ''Accept-Ranges'' = ''bytes'' \<and>
       Header_Get (headers w) ''Content-Length'' = FormatInt (int (length content)) \<and>
       w_body w = content \<and>
       status w' = 200 \<and> headers w' = headers w \<and> w_body w' = []"
    unfolding Let_def download_no_range[OF sf nr] download_no_range[OF sf' nr']
    using m
    by (simp add: Let_def fileHeaders_def downloadPath_def newResponseWriter_def status_def
        headers_def WriteHeader_def Write_def Set_Header_def Header_Get_def Header_Set_def)
qed

text \<open>
  C5, as the code has it. A download whose Range header has a value that \<open>parseRange\<close>
  rejects, or that parses to a number of ranges other than one, answers with status 416 and
  the header \<open>Content-Range: bytes */S\<close>. The answer is written by \<open>http.Error\<close>, so
  the body of a GET is the line \<open>Invalid range\<close>, not empty; only a HEAD has no body.
  (A Range header with an empty value is treated by line 311 as no Range header.)
\<close>

theorem unsatisfiable_range:
  "servesFile g os r content \<and> Header_Get (Header r) ''Range'' \<noteq> [] \<and>
   (case parseRange (Header_Get (Header r) ''Range'') (int (length content)) of
      Inl err \<Rightarrow> True
    | Inr ranges \<Rightarrow> length ranges \<noteq> 1) \<longrightarrow>
   (let w = downloadHandler g os (newResponseWriter r) r
    in status w = 416 \<and>
       Header_Get (headers w) ''Content-Range'' = ''bytes */'' @ FormatInt (int (length content)) \<and>
       w_body w = (if Method r = ''HEAD'' then [] else ''Invalid range'' @ [CHR 0x0A]))"
proof (intro impI)
  assume h: "servesFile g os r content \<and> Header_Get (Header r) ''Range'' \<noteq> [] \<and>
   (case parseRange (Header_Get (Header r) ''Range'') (int (length content)) of
      Inl err \<Rightarrow> True
    | Inr ranges \<Rightarrow> length ranges \<noteq> 1)"
  then have sf: "servesFile g os r content" and ne: "Header_Get (Header r) ''Range'' \<noteq> []"
    and bad: "\<forall>x. parseRange (Header_Get (Header r) ''Range'') (int (length content)) \<noteq> Inr [x]"
    by (auto split: sum.splits)
  show "let w = downloadHandler g os (newResponseWriter r) r
    in status w = 416 \<and>
       Header_Get (headers w) ''Content-Range'' = ''bytes */'' @ FormatInt (int (length content)) \<and>
       w_body w = (if Method r = ''HEAD'' then [] else ''Invalid range'' @ [CHR 0x0A])"
    unfolding download_bad_range[OF sf ne bad]
    by (simp add: Let_def fileHeaders_def newResponseWriter_def status_def headers_def http_Error_def
        WriteHeader_def Write_def Set_Header_def Header_Get_def Header_Set_def Header_Del_def)
qed

lemma parseRange_suffix_zero:
  assumes "isInt64 size'"
  shows "\<exists>err. parseRange ''bytes=-0'' size' = Inl err"
proof -
  have d: "digits10 0 = ''0''" by (subst digits10.simps) (simp add: digitChar_def)
  have "rangeBounds size' (CHR ''-'' # digits10 0) =
         Inr (if wrap64 (size' - 0) < 0 then 0 else wrap64 (size' - 0), wrap64 (size' - 1))"
    by (rule rangeBounds_suffix) simp_all
  moreover have "wrap64 size' = size'" using assms by (simp add: isInt64_def wrap64_id)
  ultimately have rb: "rangeBounds size' ''-0'' = Inr (if size' < 0 then 0 else size', wrap64 (size' - 1))"
    by (simp add: d)
  have p: "HasPrefix ''bytes=-0'' ''bytes=''" by (simp add: HasPrefix_def)
  have tp: "TrimPrefix ''bytes=-0'' ''bytes='' = ''-0''" by (simp add: TrimPrefix_def HasPrefix_def)
  have sp: "Split ''-0'' (CHR '','') = [''-0'']" by simp
  have "parseRange ''bytes=-0'' size' = parseRange_loop size' [''-0''] []"
    by (simp only: parseRange_def p tp sp simp_thms if_False)
  then show ?thesis by (simp add: rb)
qed

text \<open>
  C10. On a resource of size 0 \<open>parseRange\<close> returns an error whatever the header;
  the suffix spec \<open>bytes=-0\<close> is an error on a resource of every \<open>int64\<close> size; so a
  download of an empty file with a Range header (a non-empty value) answers with 416.
\<close>

theorem empty_resource_range:
  "(\<exists>err. parseRange s 0 = Inl err) \<and>
   (isInt64 size' \<longrightarrow> (\<exists>err. parseRange ''bytes=-0'' size' = Inl err)) \<and>
   (servesFile g os r [] \<and> Header_Get (Header r) ''Range'' \<noteq> [] \<longrightarrow>
      status (downloadHandler g os (newResponseWriter r) r) = 416)"
proof -
  have a: "\<exists>err. parseRange s 0 = Inl err" by (rule parseRange_size0)
  have b: "isInt64 size' \<longrightarrow> (\<exists>err. parseRange ''bytes=-0'' size' = Inl err)"
    using parseRange_suffix_zero by blast
  have c: "status (downloadHandler g os (newResponseWriter r) r) = 416"
    if sf: "servesFile g os r []" and ne: "Header_Get (Header r) ''Range'' \<noteq> []"
  proof -
    have bad: "\<forall>x. parseRange (Header_Get (Header r) ''Range'') (int (length ([]::string))) \<noteq> Inr [x]"
      using parseRange_size0[of "Header_Get (Header r) ''Range''"] by auto
    show ?thesis
      unfolding download_bad_range[OF sf ne bad]
      by (simp add: newResponseWriter_def status_def http_Error_def fileHeaders_def Let_def
          WriteHeader_def Write_def Set_Header_def)
  qed
  from a b c show ?thesis by blast
qed


text \<open>
  C2 on the example server: \<open>bytes=1-3\<close> of the five bytes \<open>hello\<close>.
\<close>

theorem partial_download_witness:
  "(servesFile ex_globals ex_os (ex_get ''GET'' ''/download/a.txt'' [''Range'' \<mapsto> [''bytes=1-3'']]) ''hello'' \<and>
    int (length ''hello'') < 2 ^ 63 \<and>
    parseRange (Header_Get (Header (ex_get ''GET'' ''/download/a.txt'' [''Range'' \<mapsto> [''bytes=1-3'']])) ''Range'')
       (int (length ''hello'')) = Inr [\<lparr>start = 1, end = 3\<rparr>]) \<and>
   (let w = downloadHandler ex_globals ex_os
              (newResponseWriter (ex_get ''GET'' ''/download/a.txt'' [''Range'' \<mapsto> [''bytes=1-3'']]))
              (ex_get ''GET'' ''/download/a.txt'' [''Range'' \<mapsto> [''bytes=1-3'']])
    in status w = 206 \<and> Header_Get (headers w) ''Content-Range'' = ''bytes 1-3/5'' \<and>
       Header_Get (headers w) ''Content-Length'' = ''3'' \<and> w_body w = ''ell'')"
proof -
  have h: "servesFile ex_globals ex_os (ex_get ''GET'' ''/download/a.txt'' [''Range'' \<mapsto> [''bytes=1-3'']]) ''hello'' \<and>
    int (length ''hello'') < 2 ^ 63 \<and>
    parseRange (Header_Get (Header (ex_get ''GET'' ''/download/a.txt'' [''Range'' \<mapsto> [''bytes=1-3'']])) ''Range'')
       (int (length ''hello'')) = Inr [\<lparr>start = 1, end = 3\<rparr>]"
    by code_simp
  have m: "Method (ex_get ''GET'' ''/download/a.txt'' [''Range'' \<mapsto> [''bytes=1-3'']]) = ''GET''"
    by (simp add: ex_get_def)
  have f: "FormatInt 1 = ''1''" "FormatInt 3 = ''3''" "FormatInt 5 = ''5''" by code_simp+
  from partial_download[of ex_globals ex_os
      "ex_get ''GET'' ''/download/a.txt'' [''Range'' \<mapsto> [''bytes=1-3'']]" "''hello''" 1 3] h m f
  show ?thesis by (simp add: Let_def)
qed

text \<open>
  The claim C5 with its empty body fails on the example server: a GET with the header
  \<open>Range: bytes=abc\<close> is answered with 416 and a body of 14 bytes.
\<close>

theorem unsatisfiable_range_counterexample:
  "servesFile ex_globals ex_os (ex_get ''GET'' ''/download/a.txt'' [''Range'' \<mapsto> [''bytes=abc'']]) ''hello'' \<and>
   parseRange ''bytes=abc'' 5 = Inl (Errorf ''invalid range spec'') \<and>
   status (downloadHandler ex_globals ex_os
             (newResponseWriter (ex_get ''GET'' ''/download/a.txt'' [''Range'' \<mapsto> [''bytes=abc'']]))
             (ex_get ''GET'' ''/download/a.txt'' [''Range'' \<mapsto> [''bytes=abc'']])) = 416 \<and>
   w_body (downloadHandler ex_globals ex_os
             (newResponseWriter (ex_get ''GET'' ''/download/a.txt'' [''Range'' \<mapsto> [''bytes=abc'']]))
             (ex_get ''GET'' ''/download/a.txt'' [''Range'' \<mapsto> [''bytes=abc'']])) =
     ''Invalid range'' @ [CHR 0x0A] \<and>
   w_body (downloadHandler ex_globals ex_os
             (newResponseWriter (ex_get ''GET'' ''/download/a.txt'' [''Range'' \<mapsto> [''bytes=abc'']]))
             (ex_get ''GET'' ''/download/a.txt'' [''Range'' \<mapsto> [''bytes=abc'']])) \<noteq> []"
  by code_simp

text \<open>
  C1: the check of lines 175, 260 and 396 is \<open>strings.HasPrefix\<close> on the two absolute
  paths, without a separator after the root. On the example server, whose root is
  \<open>/root\<close>, the candidate \<open>/root2/secret\<close> neither equals the root nor begins with
  \<open>/root/\<close>, and it is accepted: the download handler answers 200 with the bytes of a file
  outside the root, the browse handler lists the sibling directory, and an upload with the
  form field \<open>directory=../root2\<close> writes its file into the sibling directory.
\<close>

theorem containment_accepts_sibling:
  "filepath_Abs (getwd ex_os) (filepath_Join [workingDir ex_globals, TrimPrefix ''/download/../root2/secret'' ''/download/''])
     = Inr ''/root2/secret'' \<and>
   cleanWorkingDir ex_globals ex_os = ''/root'' \<and>
   ''/root2/secret'' \<noteq> ''/root'' \<and> \<not> HasPrefix ''/root2/secret'' ''/root/'' \<and>
   status (downloadHandler ex_globals ex_os
             (newResponseWriter (ex_get ''GET'' ''/download/../root2/secret'' Map.empty))
             (ex_get ''GET'' ''/download/../root2/secret'' Map.empty)) = 200 \<and>
   w_body (downloadHandler ex_globals ex_os
             (newResponseWriter (ex_get ''GET'' ''/download/../root2/secret'' Map.empty))
             (ex_get ''GET'' ''/download/../root2/secret'' Map.empty)) = ''TOPSECRET'' \<and>
   status (browseHandler ex_globals ex_os
             (newResponseWriter (ex_get ''GET'' ''/../root2'' Map.empty))
             (ex_get ''GET'' ''/../root2'' Map.empty)) = 200 \<and>
   status (fst (uploadHandler ex_globals ex_os
             (newResponseWriter (ex_post [\<lparr>FormName = ''file'', FileName = ''x'', Data = ''data''\<rparr>,
                                          \<lparr>FormName = ''directory'', FileName = [], Data = ''../root2''\<rparr>]))
             (ex_post [\<lparr>FormName = ''file'', FileName = ''x'', Data = ''data''\<rparr>,
                       \<lparr>FormName = ''directory'', FileName = [], Data = ''../root2''\<rparr>]))) = 303 \<and>
   nodes (snd (uploadHandler ex_globals ex_os
             (newResponseWriter (ex_post [\<lparr>FormName = ''file'', FileName = ''x'', Data = ''data''\<rparr>,
                                          \<lparr>FormName = ''directory'', FileName = [], Data = ''../root2''\<rparr>]))
             (ex_post [\<lparr>FormName = ''file'', FileName = ''x'', Data = ''data''\<rparr>,
                       \<lparr>FormName = ''directory'', FileName = [], Data = ''../root2''\<rparr>]))) ''/root2/x''
     = Some (File ''data'')"
  by code_simp


text \<open>C6 on the example server: the GET and the HEAD of the file \<open>a.txt\<close>.\<close>

theorem full_download_witness:
  "(servesFile ex_globals ex_os (ex_get ''GET'' ''/download/a.txt'' Map.empty) ''hello'' \<and>
    Method (ex_get ''GET'' ''/download/a.txt'' Map.empty) = ''GET'' \<and>
    Header (ex_get ''GET'' ''/download/a.txt'' Map.empty) ''Range'' = None) \<and>
   status (downloadHandler ex_globals ex_os
             (newResponseWriter (ex_get ''GET'' ''/download/a.txt'' Map.empty))
             (ex_get ''GET'' ''/download/a.txt'' Map.empty)) = 200 \<and>
   w_body (downloadHandler ex_globals ex_os
             (newResponseWriter (ex_get ''GET'' ''/download/a.txt'' Map.empty))
             (ex_get ''GET'' ''/download/a.txt'' Map.empty)) = ''hello'' \<and>
   w_body (downloadHandler ex_globals ex_os
             (newResponseWriter ((ex_get ''GET'' ''/download/a.txt'' Map.empty)\<lparr>Method := ''HEAD''\<rparr>))
             ((ex_get ''GET'' ''/download/a.txt'' Map.empty)\<lparr>Method := ''HEAD''\<rparr>)) = []"
proof -
  have h: "servesFile ex_globals ex_os (ex_get ''GET'' ''/download/a.txt'' Map.empty) ''hello'' \<and>
    Method (ex_get ''GET'' ''/download/a.txt'' Map.empty) = ''GET'' \<and>
    Header (ex_get ''GET'' ''/download/a.txt'' Map.empty) ''Range'' = None"
    by code_simp
  from full_download[of ex_globals ex_os "ex_get ''GET'' ''/download/a.txt'' Map.empty" "''hello''"] h
  show ?thesis by (simp add: Let_def)
qed

text \<open>C5 on the example server: two ranges in one header, asked with GET.\<close>

theorem unsatisfiable_range_witness:
  "(servesFile ex_globals ex_os (ex_get ''GET'' ''/download/a.txt'' [''Range'' \<mapsto> [''bytes=0-1,3-4'']]) ''hello'' \<and>
    Header_Get (Header (ex_get ''GET'' ''/download/a.txt'' [''Range'' \<mapsto> [''bytes=0-1,3-4'']])) ''Range'' \<noteq> [] \<and>
    (case parseRange (Header_Get (Header (ex_get ''GET'' ''/download/a.txt'' [''Range'' \<mapsto> [''bytes=0-1,3-4'']])) ''Range'')
            (int (length ''hello'')) of
       Inl err \<Rightarrow> True
     | Inr ranges \<Rightarrow> length ranges \<noteq> 1)) \<and>
   status (downloadHandler ex_globals ex_os
             (newResponseWriter (ex_get ''GET'' ''/download/a.txt'' [''Range'' \<mapsto> [''bytes=0-1,3-4'']]))
             (ex_get ''GET'' ''/download/a.txt'' [''Range'' \<mapsto> [''bytes=0-1,3-4'']])) = 416 \<and>
   w_body (downloadHandler ex_globals ex_os
             (newResponseWriter (ex_get ''GET'' ''/download/a.txt'' [''Range'' \<mapsto> [''bytes=0-1,3-4'']]))
             (ex_get ''GET'' ''/download/a.txt'' [''Range'' \<mapsto> [''bytes=0-1,3-4'']])) =
     ''Invalid range'' @ [CHR 0x0A]"
proof -
  have h: "servesFile ex_globals ex_os (ex_get ''GET'' ''/download/a.txt'' [''Range'' \<mapsto> [''bytes=0-1,3-4'']]) ''hello'' \<and>
    Header_Get (Header (ex_get ''GET'' ''/download/a.txt'' [''Range'' \<mapsto> [''bytes=0-1,3-4'']])) ''Range'' \<noteq> [] \<and>
    (case parseRange (Header_Get (Header (ex_get ''GET'' ''/download/a.txt'' [''Range'' \<mapsto> [''bytes=0-1,3-4'']])) ''Range'')
            (int (length ''hello'')) of
       Inl err \<Rightarrow> True
     | Inr ranges \<Rightarrow> length ranges \<noteq> 1)"
    by code_simp
  have m: "Method (ex_get ''GET'' ''/download/a.txt'' [''Range'' \<mapsto> [''bytes=0-1,3-4'']]) \<noteq> ''HEAD''"
    by (simp add: ex_get_def)
  from unsatisfiable_range[of ex_globals ex_os
      "ex_get ''GET'' ''/download/a.txt'' [''Range'' \<mapsto> [''bytes=0-1,3-4'']]" "''hello''"] h m
  show ?thesis by (simp add: Let_def)
qed

text \<open>C10 on the example server: a range asked of the empty file, and \<open>bytes=-0\<close> on
  a resource of 1000 bytes.\<close>

theorem empty_resource_range_witness:
  "isInt64 1000 \<and> (\<exists>err. parseRange ''bytes=-0'' 1000 = Inl err) \<and>
   (servesFile ex_globals ex_os (ex_get ''GET'' ''/download/empty'' [''Range'' \<mapsto> [''bytes=0-0'']]) [] \<and>
    Header_Get (Header (ex_get ''GET'' ''/download/empty'' [''Range'' \<mapsto> [''bytes=0-0'']])) ''Range'' \<noteq> []) \<and>
   status (downloadHandler ex_globals ex_os
             (newResponseWriter (ex_get ''GET'' ''/download/empty'' [''Range'' \<mapsto> [''bytes=0-0'']]))
             (ex_get ''GET'' ''/download/empty'' [''Range'' \<mapsto> [''bytes=0-0'']])) = 416"
proof -
  have h1: "isInt64 1000" by (simp add: isInt64_def)
  have h2: "servesFile ex_globals ex_os (ex_get ''GET'' ''/download/empty'' [''Range'' \<mapsto> [''bytes=0-0'']]) [] \<and>
    Header_Get (Header (ex_get ''GET'' ''/download/empty'' [''Range'' \<mapsto> [''bytes=0-0'']])) ''Range'' \<noteq> []"
    by code_simp
  from empty_resource_range[of _ 1000 ex_globals ex_os
      "ex_get ''GET'' ''/download/empty'' [''Range'' \<mapsto> [''bytes=0-0'']]"] h1 h2
  show ?thesis by blast
qed

section \<open>Properties of the browse handler\<close>


lemma listFiles_acc:
  "listFiles requestedPath entries files = files @ concat (map (listed requestedPath) entries)"
  by (induction entries arbitrary: files) (auto simp: listed_def split: sum.splits)

lemma browse_directory:
  assumes "browsesDirectory g os r entries"
  shows "browseHandler g os w r =
         renderTemplate g (Set_Header w ''Content-Type'' ''text/html; charset=utf-8'') ''browse.html''
           (Some (listingPage (TrimPrefix (URL_Path r) ''/'')
                    (listFiles (TrimPrefix (URL_Path r) ''/'') entries [])))"
proof -
  from assms obtain cleanPath where f:
    "Method r = ''GET''"
    "filepath_Abs (getwd os) (filepath_Join [workingDir g, TrimPrefix (URL_Path r) ''/'']) = Inr cleanPath"
    "HasPrefix cleanPath (cleanWorkingDir g os)"
    "nodes os (filepath_Join [workingDir g, TrimPrefix (URL_Path r) ''/'']) = Some (Directory (Inr entries))"
    by (auto simp: browsesDirectory_def browsePath_def split: sum.splits)
  show ?thesis
    unfolding browseHandler_def
    by (simp add: f os_Stat_def os_ReadDir_def node_IsDir_def os_IsNotExist_def listingPage_def Let_def)
qed

text \<open>
  C9. The listing of a directory is made of what each entry contributes in turn: an entry
  whose \<open>Info()\<close> fails contributes nothing and every entry whose metadata can be read
  appears, so an unreadable entry never fails the listing: the handler goes on to render the
  page with the entries that are left, and answers 200 when the template runs. An empty
  directory gives the empty list of files, rendered the same way.
\<close>

theorem listing_skips_unreadable:
  "listFiles requestedPath entries [] = concat (map (listed requestedPath) entries) \<and>
   (\<forall>entry \<in> set entries. \<forall>entryInfo. entry_Info entry = Inr entryInfo \<longrightarrow>
      \<lparr>Name = entry_Name entry, Path = filepath_Join [requestedPath, entry_Name entry],
       Size = info_Size entryInfo, ModTime = info_ModTime entryInfo,
       IsDir = entry_IsDir entry\<rparr> \<in> set (listFiles requestedPath entries [])) \<and>
   listFiles requestedPath [] [] = [] \<and>
   (browsesDirectory g os r entries \<longrightarrow>
      browseHandler g os (newResponseWriter r) r =
        renderTemplate g
          (Set_Header (newResponseWriter r) ''Content-Type'' ''text/html; charset=utf-8'')
          ''browse.html''
          (Some (listingPage (TrimPrefix (URL_Path r) ''/'')
                   (listFiles (TrimPrefix (URL_Path r) ''/'') entries []))) \<and>
      (\<forall>out. ExecuteTemplate g ''browse.html''
               (Some (listingPage (TrimPrefix (URL_Path r) ''/'')
                        (listFiles (TrimPrefix (URL_Path r) ''/'') entries []))) = (out, None) \<longrightarrow>
         status (browseHandler g os (newResponseWriter r) r) = 200 \<and>
         w_body (browseHandler g os (newResponseWriter r) r) = out))"
proof -
  have a: "listFiles requestedPath entries [] = concat (map (listed requestedPath) entries)"
    by (simp add: listFiles_acc)
  have b: "\<forall>entry \<in> set entries. \<forall>entryInfo. entry_Info entry = Inr entryInfo \<longrightarrow>
      \<lparr>Name = entry_Name entry, Path = filepath_Join [requestedPath, entry_Name entry],
       Size = info_Size entryInfo, ModTime = info_ModTime entryInfo,
       IsDir = entry_IsDir entry\<rparr> \<in> set (listFiles requestedPath entries [])"
    unfolding a by (auto simp: listed_def intro!: bexI)
  have c: "listFiles requestedPath [] [] = []" by simp
  have d: "browseHandler g os (newResponseWriter r) r =
        renderTemplate g
          (Set_Header (newResponseWriter r) ''Content-Type'' ''text/html; charset=utf-8'')
          ''browse.html''
          (Some (listingPage (TrimPrefix (URL_Path r) ''/'')
                   (listFiles (TrimPrefix (URL_Path r) ''/'') entries [])))"
    if "browsesDirectory g os r entries"
    using that by (rule browse_directory)
  have e: "status (browseHandler g os (newResponseWriter r) r) = 200 \<and>
         w_body (browseHandler g os (newResponseWriter r) r) = out"
    if bd: "browsesDirectory g os r entries"
      and t: "ExecuteTemplate g ''browse.html''
               (Some (listingPage (TrimPrefix (URL_Path r) ''/'')
                        (listFiles (TrimPrefix (URL_Path r) ''/'') entries []))) = (out, None)"
    for out
  proof -
    from bd have m: "Method r = ''GET''" by (simp add: browsesDirectory_def)
    show ?thesis
      unfolding d[OF bd]
      by (simp add: renderTemplate_def t m newResponseWriter_def Set_Header_def Write_def
          WriteHeader_def status_def Let_def)
  qed
  from a b c d e show ?thesis by blast
qed


section \<open>Properties of the upload handler\<close>


lemma status_http_Error_new:
  "status (http_Error (newResponseWriter r) msg code) = code"
  by (simp add: http_Error_def newResponseWriter_def Set_Header_def WriteHeader_def Write_def
      status_def Let_def)

lemma readForm_too_large:
  "valueBytes parts > m \<Longrightarrow> 0 \<le> m \<Longrightarrow> readForm parts m form = Inl ErrMessageTooLarge"
proof (induction parts arbitrary: m form)
  case Nil
  then show ?case by (simp add: valueBytes_def)
next
  case (Cons p ps)
  show ?case
  proof (cases "FormName p \<noteq> [] \<and> FileName p = []")
    case True
    show ?thesis
    proof (cases "m - int (length (Data p)) < 0")
      case True
      with \<open>FormName p \<noteq> [] \<and> FileName p = []\<close> show ?thesis by simp
    next
      case False
      have "valueBytes ps > m - int (length (Data p))"
        using Cons.prems(1) True by (simp add: valueBytes_def)
      from Cons.IH[OF this] False True show ?thesis by simp
    qed
  next
    case False
    then have "valueBytes ps > m" using Cons.prems(1) by (auto simp: valueBytes_def)
    from Cons.IH[OF this Cons.prems(2)] False show ?thesis by auto
  qed
qed

text \<open>
  C7, as the code has it. \<open>100 << 20\<close> is the \<open>maxMemory\<close> argument of
  \<open>ParseMultipartForm\<close>: the fields of the form that are not files may take 100 MiB plus
  10 MiB, and a form with more is refused. Whenever the form cannot be parsed, the upload
  fails with status 400 and nothing is written. The size of the body, and of the uploaded
  file, is not bounded.
\<close>

theorem upload_form_limit:
  "(Method r = ''POST'' \<and> Body r = Inr parts \<and> valueBytes parts > 100 * 2 ^ 20 + 10 * 2 ^ 20 \<longrightarrow>
      ParseMultipartForm r (100 * 2 ^ 20) = Inl ErrMessageTooLarge) \<and>
   (Method r = ''POST'' \<and> ParseMultipartForm r (100 * 2 ^ 20) = Inl err \<longrightarrow>
      status (fst (uploadHandler g os (newResponseWriter r) r)) = 400 \<and>
      snd (uploadHandler g os (newResponseWriter r) r) = os)"
proof -
  have a: "ParseMultipartForm r (100 * 2 ^ 20) = Inl ErrMessageTooLarge"
    if "Body r = Inr parts" "valueBytes parts > 100 * 2 ^ 20 + 10 * 2 ^ 20"
    using that by (simp add: ParseMultipartForm_def readForm_too_large)
  have b: "status (fst (uploadHandler g os (newResponseWriter r) r)) = 400 \<and>
      snd (uploadHandler g os (newResponseWriter r) r) = os"
    if "Method r = ''POST''" "ParseMultipartForm r (100 * 2 ^ 20) = Inl err"
    using that by (simp add: uploadHandler_def status_http_Error_new)
  from a b show ?thesis by blast
qed

lemma upload_any_file:
  "status (fst (uploadHandler ex_globals ex_os (newResponseWriter (ex_post [\<lparr>FormName = ''file'', FileName = ''big.bin'', Data = d\<rparr>]))
     (ex_post [\<lparr>FormName = ''file'', FileName = ''big.bin'', Data = d\<rparr>]))) = 303 \<and>
   nodes (snd (uploadHandler ex_globals ex_os (newResponseWriter (ex_post [\<lparr>FormName = ''file'', FileName = ''big.bin'', Data = d\<rparr>]))
     (ex_post [\<lparr>FormName = ''file'', FileName = ''big.bin'', Data = d\<rparr>]))) ''/root/big.bin'' = Some (File d)"
  by code_simp




lemma Split_append_sep: "Split (a @ c # b) c = Split a c @ Split b c"
proof (induction a)
  case Nil
  then show ?case by simp
next
  case (Cons x a)
  obtain p ps where sp: "Split a c = p # ps"
    using Split_not_Nil[of a c] by (cases "Split a c") auto
  show ?case using Cons sp by simp
qed

lemma Split_parts_no_sep: "p \<in> set (Split s c) \<Longrightarrow> c \<notin> set p"
proof (induction s arbitrary: p)
  case Nil
  then show ?case by simp
next
  case (Cons x s)
  obtain q qs where sp: "Split s c = q # qs"
    using Split_not_Nil[of s c] by (cases "Split s c") auto
  show ?case
  proof (cases "x = c")
    case True
    with Cons show ?thesis by auto
  next
    case False
    with Cons.prems sp have "p = x # q \<or> p \<in> set qs" by simp
    then show ?thesis
    proof
      assume "p = x # q"
      moreover have "c \<notin> set q" using Cons.IH[of q] sp by simp
      ultimately show ?thesis using False by simp
    next
      assume "p \<in> set qs"
      then show ?thesis using Cons.IH[of p] sp by simp
    qed
  qed
qed

lemma strings_Join_Cons:
  "es \<noteq> [] \<Longrightarrow> strings_Join (e # es) sep = e @ sep @ strings_Join es sep"
  by (cases es) auto

lemma strings_Join_snoc:
  "es \<noteq> [] \<Longrightarrow> strings_Join (es @ [e]) sep = strings_Join es sep @ sep @ e"
proof (induction es)
  case Nil
  then show ?case by simp
next
  case (Cons a es)
  show ?case
  proof (cases "es = []")
    case True
    then show ?thesis by simp
  next
    case False
    with Cons show ?thesis by (simp add: strings_Join_Cons)
  qed
qed

lemma Split_strings_Join:
  "es \<noteq> [] \<Longrightarrow> \<forall>e \<in> set es. CHR ''/'' \<notin> set e \<Longrightarrow> Split (strings_Join es ''/'') (CHR ''/'') = es"
proof (induction es)
  case Nil
  then show ?case by simp
next
  case (Cons a es)
  show ?case
  proof (cases "es = []")
    case True
    with Cons.prems show ?thesis by (simp add: Split_no_sep)
  next
    case False
    have "strings_Join (a # es) ''/'' = a @ CHR ''/'' # strings_Join es ''/''"
      using False by (simp add: strings_Join_Cons)
    then have "Split (strings_Join (a # es) ''/'') (CHR ''/'') =
               Split a (CHR ''/'') @ Split (strings_Join es ''/'') (CHR ''/'')"
      by (simp only: Split_append_sep)
    with Cons False show ?thesis by (simp add: Split_no_sep)
  qed
qed

lemma Split_absPath:
  assumes "\<forall>e \<in> set es. CHR ''/'' \<notin> set e"
  shows "Split (absPath es) (CHR ''/'') = [] # (if es = [] then [[]] else es)"
  using assms by (simp add: absPath_def Split_strings_Join)

lemma cleanElem_good: "goodElem e \<Longrightarrow> cleanElem rooted out e = out @ [e]"
  by (simp add: cleanElem_def goodElem_def)

lemma foldl_cleanElem_good:
  "\<forall>e \<in> set es. goodElem e \<Longrightarrow> foldl (cleanElem rooted) out es = out @ es"
  by (induction es arbitrary: out) (simp_all add: cleanElem_good)

lemma cleanElem_empty: "cleanElem rooted out [] = out"
  by (simp add: cleanElem_def)

lemma cleanElem_keeps_good:
  assumes "\<forall>e \<in> set out. goodElem e" "CHR ''/'' \<notin> set e"
  shows "\<forall>x \<in> set (cleanElem True out e). goodElem x"
proof -
  have "set (butlast out) \<subseteq> set out" by (meson in_set_butlastD subsetI)
  with assms show ?thesis
    by (auto simp: cleanElem_def goodElem_def)
qed

lemma foldl_cleanElem_keeps_good:
  "\<forall>e \<in> set out. goodElem e \<Longrightarrow> \<forall>e \<in> set es. CHR ''/'' \<notin> set e
   \<Longrightarrow> \<forall>x \<in> set (foldl (cleanElem True) out es). goodElem x"
proof (induction es arbitrary: out)
  case Nil
  then show ?case by simp
next
  case (Cons a es)
  have "\<forall>x \<in> set (cleanElem True out a). goodElem x"
    using Cons.prems by (intro cleanElem_keeps_good) auto
  from Cons.IH[OF this] Cons.prems(2) show ?case by simp
qed

lemma Clean_rooted:
  "x \<noteq> [] \<Longrightarrow> hd x = CHR ''/'' \<Longrightarrow>
   filepath_Clean x = absPath (foldl (cleanElem True) [] (Split x (CHR ''/'')))"
  by (simp add: filepath_Clean_def Let_def absPath_def)

lemma Clean_abs_form:
  assumes "filepath_IsAbs x"
  shows "\<exists>out. (\<forall>e \<in> set out. goodElem e) \<and> filepath_Clean x = absPath out"
proof -
  from assms have ne: "x \<noteq> []" and hd: "hd x = CHR ''/''"
    by (cases x; simp add: filepath_IsAbs_def HasPrefix_def)+
  let ?out = "foldl (cleanElem True) [] (Split x (CHR ''/''))"
  have "\<forall>e \<in> set ?out. goodElem e"
    by (rule foldl_cleanElem_keeps_good) (auto dest: Split_parts_no_sep)
  moreover have "filepath_Clean x = absPath ?out"
    using ne hd by (rule Clean_rooted)
  ultimately show ?thesis by blast
qed

lemma Clean_absPath:
  assumes "\<forall>e \<in> set out. goodElem e"
  shows "filepath_Clean (absPath out) = absPath out"
proof -
  have ns: "\<forall>e \<in> set out. CHR ''/'' \<notin> set e" using assms by (auto simp: goodElem_def)
  have f: "foldl (cleanElem True) [] (Split (absPath out) (CHR ''/'')) = out"
    using assms by (simp add: Split_absPath[OF ns] cleanElem_empty foldl_cleanElem_good)
  have "filepath_Clean (absPath out) =
        absPath (foldl (cleanElem True) [] (Split (absPath out) (CHR ''/'')))"
    by (rule Clean_rooted) (simp_all add: absPath_def)
  then show ?thesis by (simp only: f)
qed

text \<open>Joining one more element to a cleaned absolute path.\<close>

lemma Clean_absPath_elem:
  assumes "\<forall>e \<in> set out. goodElem e" "CHR ''/'' \<notin> set e"
  shows "filepath_Clean (absPath out @ CHR ''/'' # e) = absPath (cleanElem True out e)"
proof -
  have ns: "\<forall>e \<in> set out. CHR ''/'' \<notin> set e" using assms by (auto simp: goodElem_def)
  have sp: "Split (absPath out @ CHR ''/'' # e) (CHR ''/'') =
            ([] # (if out = [] then [[]] else out)) @ [e]"
    by (simp only: Split_append_sep Split_absPath[OF ns] Split_no_sep[OF assms(2)])
  have f: "foldl (cleanElem True) [] (Split (absPath out @ CHR ''/'' # e) (CHR ''/'')) =
           cleanElem True out e"
    unfolding sp using assms(1) by (simp add: cleanElem_empty foldl_cleanElem_good)
  have "filepath_Clean (absPath out @ CHR ''/'' # e) =
        absPath (foldl (cleanElem True) [] (Split (absPath out @ CHR ''/'' # e) (CHR ''/'')))"
    by (rule Clean_rooted) (simp_all add: absPath_def)
  then show ?thesis by (simp only: f)
qed

lemma Join_absPath:
  assumes "\<forall>e \<in> set out. goodElem e" "CHR ''/'' \<notin> set e"
  shows "filepath_Join [absPath out, e] = absPath (cleanElem True out e)"
proof -
  have "filepath_Join [absPath out, e] = filepath_Clean (absPath out @ CHR ''/'' # e)"
    by (simp add: filepath_Join_def absPath_def)
  then show ?thesis by (simp only: Clean_absPath_elem[OF assms])
qed

lemma Join_absPath_slash:
  assumes "\<forall>e \<in> set out. goodElem e"
  shows "filepath_Join [absPath out, ''/''] = absPath out"
proof -
  have ns: "\<forall>e \<in> set out. CHR ''/'' \<notin> set e" using assms by (auto simp: goodElem_def)
  have s2: "Split ''/'' (CHR ''/'') = [[], []]" by simp
  have sp: "Split (absPath out @ CHR ''/'' # ''/'') (CHR ''/'') =
            ([] # (if out = [] then [[]] else out)) @ [[], []]"
    by (simp only: Split_append_sep Split_absPath[OF ns] s2)
  have f: "foldl (cleanElem True) [] (Split (absPath out @ CHR ''/'' # ''/'') (CHR ''/'')) = out"
    unfolding sp using assms(1) by (simp add: cleanElem_empty foldl_cleanElem_good)
  have "filepath_Clean (absPath out @ CHR ''/'' # ''/'') =
        absPath (foldl (cleanElem True) [] (Split (absPath out @ CHR ''/'' # ''/'') (CHR ''/'')))"
    by (rule Clean_rooted) (simp_all add: absPath_def)
  then have "filepath_Clean (absPath out @ CHR ''/'' # ''/'') = absPath out"
    by (simp only: f)
  moreover have "filepath_Join [absPath out, ''/''] = filepath_Clean (absPath out @ CHR ''/'' # ''/'')"
    by (simp add: filepath_Join_def absPath_def)
  ultimately show ?thesis by simp
qed


lemma absPath_snoc:
  "absPath (out @ [e]) = (if out = [] then [] else absPath out) @ CHR ''/'' # e"
  by (cases "out = []") (simp_all add: absPath_def strings_Join_snoc)

lemma Dir_absPath_snoc:
  assumes "\<forall>e \<in> set out. goodElem e" "goodElem e"
  shows "filepath_Dir (absPath (out @ [e])) = absPath out"
proof -
  let ?pre = "if out = [] then [] else absPath out"
  have ns: "\<And>x. x \<in> set (rev e) \<Longrightarrow> x \<noteq> CHR ''/''"
    using assms(2) by (auto simp: goodElem_def)
  have "dropWhile (\<lambda>c. c \<noteq> CHR ''/'') (rev (?pre @ CHR ''/'' # e)) = CHR ''/'' # rev ?pre"
    using dropWhile_append2[of "rev e" "\<lambda>c. c \<noteq> CHR ''/''" "CHR ''/'' # rev ?pre"] ns
    by simp
  then have d: "filepath_Dir (absPath (out @ [e])) = filepath_Clean (?pre @ ''/'')"
    by (simp add: filepath_Dir_def absPath_snoc)
  show ?thesis
  proof (cases "out = []")
    case True
    have "filepath_Clean ''/'' = ''/''" by (simp add: filepath_Clean_def cleanElem_def)
    with d True show ?thesis by (simp add: absPath_def)
  next
    case False
    have "filepath_Clean (absPath out @ CHR ''/'' # []) = absPath (cleanElem True out [])"
      by (rule Clean_absPath_elem[OF assms(1)]) simp
    with d False show ?thesis by (simp add: cleanElem_empty)
  qed
qed

lemma Base_absPath_snoc:
  assumes "goodElem e"
  shows "filepath_Base (absPath (out @ [e])) = e"
proof -
  let ?pre = "if out = [] then [] else absPath out"
  obtain x xs where re: "rev e = x # xs" and x: "x \<noteq> CHR ''/''"
    using assms by (cases "rev e") (auto simp: goodElem_def)
  have ns: "\<And>c. c \<in> set (rev e) \<Longrightarrow> c \<noteq> CHR ''/''"
    using assms by (auto simp: goodElem_def)
  have r: "rev (?pre @ CHR ''/'' # e) = rev e @ CHR ''/'' # rev ?pre" by simp
  have dw: "dropWhile (\<lambda>c. c = CHR ''/'') (rev e @ CHR ''/'' # rev ?pre) = rev e @ CHR ''/'' # rev ?pre"
    using re x by simp
  have tw: "takeWhile (\<lambda>c. c \<noteq> CHR ''/'') (rev e @ CHR ''/'' # rev ?pre) = rev e"
    using takeWhile_append2[of "rev e" "\<lambda>c. c \<noteq> CHR ''/''" "CHR ''/'' # rev ?pre"] ns by simp
  have ne: "e \<noteq> []" using assms by (simp add: goodElem_def)
  show ?thesis
    unfolding absPath_snoc filepath_Base_def Let_def r dw
    using ne by (simp add: tw del: rev_append rev.simps)
qed

lemma Base_no_separator:
  "filepath_Base path = ''/'' \<or> (filepath_Base path \<noteq> [] \<and> CHR ''/'' \<notin> set (filepath_Base path))"
proof (cases "path = []")
  case True
  then show ?thesis by (simp add: filepath_Base_def)
next
  case False
  let ?el = "takeWhile (\<lambda>c. c \<noteq> CHR ''/'') (rev (rev (dropWhile (\<lambda>c. c = CHR ''/'') (rev path))))"
  have "CHR ''/'' \<notin> set ?el" by (auto dest: set_takeWhileD)
  then show ?thesis using False by (auto simp: filepath_Base_def Let_def)
qed

lemma no_separator_cases:
  "e \<noteq> [] \<Longrightarrow> CHR ''/'' \<notin> set e \<Longrightarrow> e = ''.'' \<or> e = ''..'' \<or> goodElem e"
  by (auto simp: goodElem_def)

lemma pathPrefixes_absPath:
  assumes "\<forall>e \<in> set out. goodElem e"
  shows "pathPrefixes (absPath out) = map (\<lambda>k. absPath (take k out)) [0 ..< length out + 1]"
proof -
  have ns: "\<forall>e \<in> set out. CHR ''/'' \<notin> set e" using assms by (auto simp: goodElem_def)
  have ne: "\<forall>e \<in> set out. e \<noteq> []" using assms by (auto simp: goodElem_def)
  have "filter (\<lambda>e. e \<noteq> []) out = out" using ne by (induction out) auto
  then have f: "filter (\<lambda>e. e \<noteq> []) (Split (absPath out) (CHR ''/'')) = out"
    by (simp add: Split_absPath[OF ns])
  have a: "filepath_IsAbs (absPath out)"
    by (simp add: filepath_IsAbs_def HasPrefix_def absPath_def)
  show ?thesis
    unfolding pathPrefixes_def Let_def f using a by (simp add: absPath_def)
qed

lemma absPath_in_prefixes:
  assumes "\<forall>e \<in> set out. goodElem e"
  shows "absPath out \<in> set (pathPrefixes (absPath out))"
    and "absPath (butlast out) \<in> set (pathPrefixes (absPath out))"
proof -
  have s: "set (pathPrefixes (absPath out)) = (\<lambda>k. absPath (take k out)) ` {0 ..< length out + 1}"
    unfolding pathPrefixes_absPath[OF assms] set_map set_upt ..
  show "absPath out \<in> set (pathPrefixes (absPath out))"
    unfolding s by (rule image_eqI[where x = "length out"]) simp_all
  show "absPath (butlast out) \<in> set (pathPrefixes (absPath out))"
    unfolding s by (rule image_eqI[where x = "length out - 1"]) (simp_all add: butlast_conv_take)
qed

lemma mkdirs_files:
  "mkdirs fs ps = (fs', err) \<Longrightarrow> (fs' p = Some (File c)) = (fs p = Some (File c))"
proof (induction ps arbitrary: fs)
  case Nil
  then show ?case by simp
next
  case (Cons a ps)
  show ?case
  proof (cases "fs a")
    case None
    with Cons.prems have "mkdirs (fs(a \<mapsto> Directory (Inr []))) ps = (fs', err)" by simp
    from Cons.IH[OF this] None show ?thesis by (cases "p = a") auto
  next
    case (Some n)
    with Cons show ?thesis by (cases n) auto
  qed
qed

lemma mkdirs_keeps_dir:
  "mkdirs fs ps = (fs', err) \<Longrightarrow> fs p = Some (Directory d) \<Longrightarrow> \<exists>d'. fs' p = Some (Directory d')"
proof (induction ps arbitrary: fs d)
  case Nil
  then show ?case by simp
next
  case (Cons a ps)
  show ?case
  proof (cases "fs a")
    case None
    with Cons.prems have m: "mkdirs (fs(a \<mapsto> Directory (Inr []))) ps = (fs', err)" by simp
    have "(fs(a \<mapsto> Directory (Inr []))) p = Some (Directory d)"
      using None Cons.prems(2) by (cases "p = a") auto
    from Cons.IH[OF m this] show ?thesis .
  next
    case (Some n)
    with Cons show ?thesis by (cases n) auto
  qed
qed

lemma mkdirs_dirs:
  "mkdirs fs ps = (fs', None) \<Longrightarrow> p \<in> set ps \<Longrightarrow> \<exists>d. fs' p = Some (Directory d)"
proof (induction ps arbitrary: fs)
  case Nil
  then show ?case by simp
next
  case (Cons a ps)
  show ?case
  proof (cases "fs a")
    case None
    with Cons.prems have m: "mkdirs (fs(a \<mapsto> Directory (Inr []))) ps = (fs', None)" by simp
    show ?thesis
    proof (cases "p = a")
      case True
      have "(fs(a \<mapsto> Directory (Inr []))) p = Some (Directory (Inr []))" using True by simp
      from mkdirs_keeps_dir[OF m this] show ?thesis .
    next
      case False
      with Cons.prems(2) have "p \<in> set ps" by simp
      from Cons.IH[OF m this] show ?thesis .
    qed
  next
    case (Some n)
    show ?thesis
    proof (cases n)
      case (File x)
      with Some Cons.prems show ?thesis by simp
    next
      case NoAccess
      with Some Cons.prems show ?thesis by simp
    next
      case (Directory d)
      with Some Cons.prems have m: "mkdirs fs ps = (fs', None)" by simp
      show ?thesis
      proof (cases "p = a")
        case True
        from mkdirs_keeps_dir[OF m] Some Directory True show ?thesis by simp
      next
        case False
        with Cons.prems(2) have "p \<in> set ps" by simp
        from Cons.IH[OF m this] show ?thesis .
      qed
    qed
  qed
qed


lemma isDirectory_iff: "isDirectory os p \<longleftrightarrow> (\<exists>d. nodes os p = Some (Directory d))"
  by (auto simp: isDirectory_def split: option.splits node.splits)

lemma cleanElem_dotdot:
  "\<forall>e \<in> set out. goodElem e \<Longrightarrow> cleanElem True out ''..'' = butlast out"
  by (cases out rule: rev_cases) (auto simp: cleanElem_def goodElem_def)

lemma cleanElem_dot: "cleanElem rooted out ''.'' = out"
  by (simp add: cleanElem_def)

lemma os_Create_cases:
  "(\<exists>err. os_Create os p = Inl err) \<or>
   os_Create os p = Inr (os\<lparr>nodes := (nodes os)(p \<mapsto> File [])\<rparr>)"
  by (auto simp: os_Create_def split: option.splits node.splits)

lemma io_Copy_cases:
  "\<exists>c' err. io_Copy os p c = (os\<lparr>nodes := (nodes os)(p \<mapsto> File c')\<rparr>, err) \<and>
            (err = None \<longrightarrow> c' = c)"
  by (auto simp: io_Copy_def split: option.splits)

lemma workingDir_form:
  assumes "filepath_IsAbs wd" "filepath_Clean wd = wd"
  obtains outw where "\<forall>e \<in> set outw. goodElem e" "wd = absPath outw"
  using Clean_abs_form[OF assms(1)] assms(2) by auto

lemma Join_workingDir_form:
  assumes "filepath_IsAbs wd"
  obtains out where "\<forall>e \<in> set out. goodElem e" "filepath_Join [wd, s] = absPath out"
proof -
  from assms obtain t where wd: "wd = CHR ''/'' # t"
    by (cases wd) (auto simp: filepath_IsAbs_def HasPrefix_def)
  have j: "filepath_Join [wd, s] = filepath_Clean (wd @ ''/'' @ s)"
    by (simp add: filepath_Join_def wd)
  have "filepath_IsAbs (wd @ ''/'' @ s)"
    by (simp add: wd filepath_IsAbs_def HasPrefix_def)
  from Clean_abs_form[OF this] j that show ?thesis by auto
qed

lemma uploadDir_form:
  assumes "filepath_IsAbs (workingDir g)" "filepath_Clean (workingDir g) = workingDir g"
  obtains out where "\<forall>e \<in> set out. goodElem e" "uploadDir g r form = absPath out"
proof (cases "FormValue r form ''directory'' \<noteq> []")
  case True
  obtain out where "\<forall>e \<in> set out. goodElem e"
    "filepath_Join [workingDir g, filepath_Clean (FormValue r form ''directory'')] = absPath out"
    using Join_workingDir_form[OF assms(1)] by blast
  with True that show ?thesis by (simp add: uploadDir_def)
next
  case False
  obtain outw where "\<forall>e \<in> set outw. goodElem e" "workingDir g = absPath outw"
    using workingDir_form[OF assms] by blast
  with False that show ?thesis by (simp add: uploadDir_def)
qed

lemma uploadTarget_result:
  assumes abs: "filepath_IsAbs (workingDir g)" and cl: "filepath_Clean (workingDir g) = workingDir g"
    and d1: "isDirectory os (workingDir g)"
    and d2: "isDirectory os (filepath_Join [workingDir g, ''..''])"
    and td: "targetDir = (if subDir \<noteq> [] then filepath_Join [workingDir g, filepath_Clean subDir]
                          else workingDir g)"
  shows "(\<exists>w1 os1. uploadTarget g os (newResponseWriter r) subDir = Inl (w1, os1) \<and>
            status w1 \<noteq> 303 \<and>
            (\<forall>p c. (nodes os1 p = Some (File c)) = (nodes os p = Some (File c)))) \<or>
         (\<exists>sd out os1. uploadTarget g os (newResponseWriter r) subDir = Inr (sd, targetDir, os1) \<and>
            (\<forall>e \<in> set out. goodElem e) \<and> targetDir = absPath out \<and>
            (\<forall>p c. (nodes os1 p = Some (File c)) = (nodes os p = Some (File c))) \<and>
            isDirectory os1 (absPath out) \<and> isDirectory os1 (absPath (butlast out)))"
proof (cases "subDir \<noteq> []")
  case False
  obtain outw where ow: "\<forall>e \<in> set outw. goodElem e" "workingDir g = absPath outw"
    using workingDir_form[OF abs cl] by blast
  have "filepath_Join [absPath outw, ''..''] = absPath (cleanElem True outw ''..'')"
    by (rule Join_absPath[OF ow(1)]) simp
  then have p: "filepath_Join [workingDir g, ''..''] = absPath (butlast outw)"
    by (simp add: ow cleanElem_dotdot)
  have "uploadTarget g os (newResponseWriter r) subDir = Inr (subDir, targetDir, os)"
    using False td by (simp add: uploadTarget_def)
  moreover have "targetDir = absPath outw" using False td ow by simp
  moreover have "isDirectory os (absPath outw)" using d1 ow by simp
  moreover have "isDirectory os (absPath (butlast outw))" using d2 p by simp
  ultimately show ?thesis using ow(1) by blast
next
  case True
  obtain out where o: "\<forall>e \<in> set out. goodElem e"
    "filepath_Join [workingDir g, filepath_Clean subDir] = absPath out"
    using Join_workingDir_form[OF abs] by blast
  have t: "targetDir = absPath out" using True td o by simp
  have ia: "filepath_IsAbs (absPath out)"
    by (simp add: filepath_IsAbs_def HasPrefix_def absPath_def)
  have ab: "filepath_Abs (getwd os) (absPath out) = Inr (absPath out)"
    using ia by (simp add: filepath_Abs_def Clean_absPath[OF o(1)])
  obtain fs' err where mk: "mkdirs (nodes os) (pathPrefixes (absPath out)) = (fs', err)"
    by (cases "mkdirs (nodes os) (pathPrefixes (absPath out))") auto
  have mkall: "os_MkdirAll os (absPath out) = (os\<lparr>nodes := fs'\<rparr>, err)"
    by (simp add: os_MkdirAll_def mk)
  have files: "\<forall>p c. (nodes (os\<lparr>nodes := fs'\<rparr>) p = Some (File c)) = (nodes os p = Some (File c))"
    using mkdirs_files[OF mk] by simp
  show ?thesis
  proof (cases "HasPrefix (absPath out) (cleanWorkingDir g os)")
    case False
    then have "uploadTarget g os (newResponseWriter r) subDir =
               Inl (http_Error (newResponseWriter r) ''Access denied'' 403, os)"
      using True by (simp add: uploadTarget_def o(2) ab Let_def)
    then show ?thesis by (simp add: status_http_Error_new)
  next
    case hp: True
    show ?thesis
    proof (cases err)
      case (Some e)
      have "uploadTarget g os (newResponseWriter r) subDir =
            Inl (http_Error (newResponseWriter r) (''Error creating directory: '' @ Error_text e) 500,
                 os\<lparr>nodes := fs'\<rparr>)"
        using True hp Some by (simp add: uploadTarget_def o(2) ab mkall Let_def)
      with files show ?thesis by (simp add: status_http_Error_new)
    next
      case None
      have u: "uploadTarget g os (newResponseWriter r) subDir =
            Inr (filepath_Clean subDir, targetDir, os\<lparr>nodes := fs'\<rparr>)"
        using True hp None by (simp add: uploadTarget_def o(2) ab mkall Let_def t)
      have "isDirectory (os\<lparr>nodes := fs'\<rparr>) (absPath out)"
        using mkdirs_dirs[OF mk[unfolded None] absPath_in_prefixes(1)[OF o(1)]]
        by (simp add: isDirectory_iff)
      moreover have "isDirectory (os\<lparr>nodes := fs'\<rparr>) (absPath (butlast out))"
        using mkdirs_dirs[OF mk[unfolded None] absPath_in_prefixes(2)[OF o(1)]]
        by (simp add: isDirectory_iff)
      ultimately show ?thesis using u o(1) t files by blast
    qed
  qed
qed


lemma upload_store:
  assumes m: "Method r = ''POST''"
    and pf: "ParseMultipartForm r (100 * 2 ^ 20) = Inr form"
    and ff: "FormFile form ''file'' = Inr header"
    and ut: "uploadTarget g os (newResponseWriter r) (FormValue r form ''directory'') =
             Inr (sd, targetDir, os1)"
    and dst: "dstPath = filepath_Join [targetDir, filepath_Base (Filename header)]"
  shows "(\<exists>w1. uploadHandler g os (newResponseWriter r) r = (w1, os1) \<and> status w1 = 500) \<or>
         (\<exists>d. nodes os1 dstPath = Some (Directory d)) = False \<and>
         (\<exists>w1 c'. uploadHandler g os (newResponseWriter r) r =
                     (w1, os1\<lparr>nodes := (nodes os1)(dstPath \<mapsto> File c')\<rparr>) \<and>
                   (status w1 = 303 \<longrightarrow> c' = Content header))"
proof -
  have m': "Method r \<noteq> ''GET''" using m by simp
  from os_Create_cases[of os1 dstPath] show ?thesis
  proof
    assume "\<exists>err. os_Create os1 dstPath = Inl err"
    then obtain err where c: "os_Create os1 dstPath = Inl err" by blast
    have "uploadHandler g os (newResponseWriter r) r =
          (http_Error (newResponseWriter r) (''Error creating file: '' @ Error_text err) 500, os1)"
      unfolding uploadHandler_def using pf
      by (simp add: m m' ff ut dst[symmetric] c Let_def)
    then show ?thesis by (simp add: status_http_Error_new)
  next
    assume c: "os_Create os1 dstPath = Inr (os1\<lparr>nodes := (nodes os1)(dstPath \<mapsto> File [])\<rparr>)"
    have nd: "(\<exists>d. nodes os1 dstPath = Some (Directory d)) = False"
      using c by (auto simp: os_Create_def)
    let ?os2 = "os1\<lparr>nodes := (nodes os1)(dstPath \<mapsto> File [])\<rparr>"
    obtain c' err where cp: "io_Copy ?os2 dstPath (Content header) =
        (?os2\<lparr>nodes := (nodes ?os2)(dstPath \<mapsto> File c')\<rparr>, err)"
      and ok: "err = None \<longrightarrow> c' = Content header"
      using io_Copy_cases[of ?os2 dstPath "Content header"] by blast
    have os3: "?os2\<lparr>nodes := (nodes ?os2)(dstPath \<mapsto> File c')\<rparr> =
               os1\<lparr>nodes := (nodes os1)(dstPath \<mapsto> File c')\<rparr>"
      by simp
    show ?thesis
    proof (cases err)
      case None
      have "uploadHandler g os (newResponseWriter r) r =
            (http_Redirect (newResponseWriter r)
               ((if sd \<noteq> [] then ''/'' @ sd else ''/'') @ ''?upload=success'') 303,
             os1\<lparr>nodes := (nodes os1)(dstPath \<mapsto> File c')\<rparr>)"
        unfolding uploadHandler_def using pf
        by (simp add: m m' ff ut dst[symmetric] c cp None Let_def del: fun_upd_apply)
      with ok None nd show ?thesis by auto
    next
      case (Some e)
      have "uploadHandler g os (newResponseWriter r) r =
            (http_Error (newResponseWriter r) (''Error saving file: '' @ Error_text e) 500,
             os1\<lparr>nodes := (nodes os1)(dstPath \<mapsto> File c')\<rparr>)"
        unfolding uploadHandler_def using pf
        by (simp add: m m' ff ut dst[symmetric] c cp Some Let_def del: fun_upd_apply)
      with nd show ?thesis by (auto simp: status_http_Error_new)
    qed
  qed
qed

text \<open>
  C8. The file of an upload is stored under \<open>filepath.Base\<close> of the file name the client
  sent, which has no separator in it (or is \<open>/\<close> itself). With the working directory an
  absolute, cleaned path of an existing directory: when the upload succeeds (303) the bytes
  are at the target directory joined with that base name, a path directly inside the target
  directory; and whatever the answer, no file anywhere else is created or changed. (For the
  base names \<open>.\<close>, \<open>..\<close> and \<open>/\<close> the destination is a directory, \<open>os.Create\<close>
  fails and nothing is written.)
\<close>

theorem upload_destination:
  "Method r = ''POST'' \<and> ParseMultipartForm r (100 * 2 ^ 20) = Inr form \<and>
   FormFile form ''file'' = Inr header \<and>
   filepath_IsAbs (workingDir g) \<and> filepath_Clean (workingDir g) = workingDir g \<and>
   isDirectory os (workingDir g) \<and> isDirectory os (filepath_Join [workingDir g, ''..'']) \<longrightarrow>
   (let name = filepath_Base (Filename header);
        targetDir = uploadDir g r form;
        dstPath = filepath_Join [targetDir, name];
        w' = fst (uploadHandler g os (newResponseWriter r) r);
        os' = snd (uploadHandler g os (newResponseWriter r) r)
    in (name = ''/'' \<or> CHR ''/'' \<notin> set name) \<and>
       (status w' = 303 \<longrightarrow> goodElem name \<and> nodes os' dstPath = Some (File (Content header))) \<and>
       (\<forall>p c. nodes os' p = Some (File c) \<and> nodes os p \<noteq> Some (File c) \<longrightarrow>
              p = dstPath \<and> goodElem name) \<and>
       (goodElem name \<longrightarrow> filepath_Dir dstPath = targetDir \<and> filepath_Base dstPath = name))"
proof (intro impI)
  assume h: "Method r = ''POST'' \<and> ParseMultipartForm r (100 * 2 ^ 20) = Inr form \<and>
   FormFile form ''file'' = Inr header \<and>
   filepath_IsAbs (workingDir g) \<and> filepath_Clean (workingDir g) = workingDir g \<and>
   isDirectory os (workingDir g) \<and> isDirectory os (filepath_Join [workingDir g, ''..''])"
  then have m: "Method r = ''POST''" and pf: "ParseMultipartForm r (100 * 2 ^ 20) = Inr form"
    and ff: "FormFile form ''file'' = Inr header"
    and abs: "filepath_IsAbs (workingDir g)" and cl: "filepath_Clean (workingDir g) = workingDir g"
    and d1: "isDirectory os (workingDir g)"
    and d2: "isDirectory os (filepath_Join [workingDir g, ''..''])"
    by auto
  define name where "name = filepath_Base (Filename header)"
  define targetDir where "targetDir = uploadDir g r form"
  define dstPath where "dstPath = filepath_Join [targetDir, name]"
  define w' where "w' = fst (uploadHandler g os (newResponseWriter r) r)"
  define os' where "os' = snd (uploadHandler g os (newResponseWriter r) r)"
  have m': "Method r \<noteq> ''GET''" using m by simp
  have td: "targetDir = (if FormValue r form ''directory'' \<noteq> []
              then filepath_Join [workingDir g, filepath_Clean (FormValue r form ''directory'')]
              else workingDir g)"
    by (simp add: targetDir_def uploadDir_def)
  have a: "name = ''/'' \<or> CHR ''/'' \<notin> set name"
    using Base_no_separator[of "Filename header"] by (auto simp: name_def)
  have nm: "name = ''/'' \<or> name = ''.'' \<or> name = ''..'' \<or> goodElem name"
    using Base_no_separator[of "Filename header"] no_separator_cases[of name]
    by (auto simp: name_def)
  obtain out0 where o0: "\<forall>e \<in> set out0. goodElem e" "targetDir = absPath out0"
    unfolding targetDir_def using uploadDir_form[OF abs cl] by blast
  have d: "filepath_Dir dstPath = targetDir \<and> filepath_Base dstPath = name" if g: "goodElem name"
  proof -
    have "CHR ''/'' \<notin> set name" using g by (simp add: goodElem_def)
    from Join_absPath[OF o0(1) this] have "dstPath = absPath (out0 @ [name])"
      by (simp add: dstPath_def o0(2) cleanElem_good[OF g])
    then show ?thesis
      using Dir_absPath_snoc[OF o0(1) g] Base_absPath_snoc[OF g, of out0] o0(2) by simp
  qed
  have bc: "(status w' = 303 \<longrightarrow> goodElem name \<and> nodes os' dstPath = Some (File (Content header))) \<and>
       (\<forall>p c. nodes os' p = Some (File c) \<and> nodes os p \<noteq> Some (File c) \<longrightarrow>
              p = dstPath \<and> goodElem name)"
    using uploadTarget_result[OF abs cl d1 d2 td, of r]
  proof
    assume "\<exists>w1 os1. uploadTarget g os (newResponseWriter r) (FormValue r form ''directory'') = Inl (w1, os1) \<and>
            status w1 \<noteq> 303 \<and>
            (\<forall>p c. (nodes os1 p = Some (File c)) = (nodes os p = Some (File c)))"
    then obtain w1 os1 where
      ut: "uploadTarget g os (newResponseWriter r) (FormValue r form ''directory'') = Inl (w1, os1)"
      and st: "status w1 \<noteq> 303"
      and fl: "\<forall>p c. (nodes os1 p = Some (File c)) = (nodes os p = Some (File c))"
      by blast
    have "uploadHandler g os (newResponseWriter r) r = (w1, os1)"
      unfolding uploadHandler_def using pf by (simp add: m m' ff ut)
    then have "w' = w1" "os' = os1" by (simp_all add: w'_def os'_def)
    with st fl show ?thesis by simp
  next
    assume "\<exists>sd out os1. uploadTarget g os (newResponseWriter r) (FormValue r form ''directory'') =
              Inr (sd, targetDir, os1) \<and>
            (\<forall>e \<in> set out. goodElem e) \<and> targetDir = absPath out \<and>
            (\<forall>p c. (nodes os1 p = Some (File c)) = (nodes os p = Some (File c))) \<and>
            isDirectory os1 (absPath out) \<and> isDirectory os1 (absPath (butlast out))"
    then obtain sd out os1 where
      ut: "uploadTarget g os (newResponseWriter r) (FormValue r form ''directory'') =
              Inr (sd, targetDir, os1)"
      and o: "\<forall>e \<in> set out. goodElem e" and t: "targetDir = absPath out"
      and fl: "\<forall>p c. (nodes os1 p = Some (File c)) = (nodes os p = Some (File c))"
      and dd: "isDirectory os1 (absPath out)" "isDirectory os1 (absPath (butlast out))"
      by blast
    have dst: "dstPath = filepath_Join [targetDir, filepath_Base (Filename header)]"
      by (simp add: dstPath_def name_def)
    have degenerate: "\<exists>d. nodes os1 dstPath = Some (Directory d)" if "\<not> goodElem name"
    proof -
      from nm that have "name = ''/'' \<or> name = ''.'' \<or> name = ''..''" by blast
      then have "dstPath = absPath out \<or> dstPath = absPath (butlast out)"
      proof (elim disjE)
        assume "name = ''/''"
        then show ?thesis using Join_absPath_slash[OF o] by (simp add: dstPath_def t)
      next
        assume n: "name = ''.''"
        have "filepath_Join [absPath out, ''.''] = absPath (cleanElem True out ''.'')"
          by (rule Join_absPath[OF o]) simp
        then show ?thesis by (simp add: dstPath_def t n cleanElem_dot)
      next
        assume n: "name = ''..''"
        have "filepath_Join [absPath out, ''..''] = absPath (cleanElem True out ''..'')"
          by (rule Join_absPath[OF o]) simp
        then show ?thesis by (simp add: dstPath_def t n cleanElem_dotdot[OF o])
      qed
      with dd show ?thesis by (auto simp: isDirectory_iff)
    qed
    from upload_store[OF m pf ff ut dst] show ?thesis
    proof
      assume "\<exists>w1. uploadHandler g os (newResponseWriter r) r = (w1, os1) \<and> status w1 = 500"
      then obtain w1 where "uploadHandler g os (newResponseWriter r) r = (w1, os1)" "status w1 = 500"
        by blast
      then have "w' = w1" "os' = os1" "status w1 \<noteq> 303" by (simp_all add: w'_def os'_def)
      with fl show ?thesis by simp
    next
      assume "(\<exists>d. nodes os1 dstPath = Some (Directory d)) = False \<and>
         (\<exists>w1 c'. uploadHandler g os (newResponseWriter r) r =
                     (w1, os1\<lparr>nodes := (nodes os1)(dstPath \<mapsto> File c')\<rparr>) \<and>
                   (status w1 = 303 \<longrightarrow> c' = Content header))"
      then obtain w1 c' where nd: "\<not> (\<exists>d. nodes os1 dstPath = Some (Directory d))"
        and u: "uploadHandler g os (newResponseWriter r) r =
                     (w1, os1\<lparr>nodes := (nodes os1)(dstPath \<mapsto> File c')\<rparr>)"
        and ok: "status w1 = 303 \<longrightarrow> c' = Content header"
        by blast
      from nd degenerate have gn: "goodElem name" by blast
      have w: "w' = w1" and os: "nodes os' = (nodes os1)(dstPath \<mapsto> File c')"
        using u by (simp_all add: w'_def os'_def)
      show ?thesis using gn w os ok fl by auto
    qed
  qed
  from a bc d show "let name = filepath_Base (Filename header);
        targetDir = uploadDir g r form;
        dstPath = filepath_Join [targetDir, name];
        w' = fst (uploadHandler g os (newResponseWriter r) r);
        os' = snd (uploadHandler g os (newResponseWriter r) r)
    in (name = ''/'' \<or> CHR ''/'' \<notin> set name) \<and>
       (status w' = 303 \<longrightarrow> goodElem name \<and> nodes os' dstPath = Some (File (Content header))) \<and>
       (\<forall>p c. nodes os' p = Some (File c) \<and> nodes os p \<noteq> Some (File c) \<longrightarrow>
              p = dstPath \<and> goodElem name) \<and>
       (goodElem name \<longrightarrow> filepath_Dir dstPath = targetDir \<and> filepath_Base dstPath = name)"
    unfolding Let_def name_def[symmetric] targetDir_def[symmetric] dstPath_def[symmetric]
      w'_def[symmetric] os'_def[symmetric]
    by blast
qed


section \<open>The properties on the example server\<close>


text \<open>C9 on the example server: the listing of the root skips the entry that is gone.\<close>

theorem listing_skips_unreadable_witness:
  "(\<lparr>entry_Name = ''a.txt'', entry_IsDir = False,
      entry_Info = Inr \<lparr>info_Size = 5, info_ModTime = 7\<rparr>\<rparr>
      \<in> set [\<lparr>entry_Name = ''a.txt'', entry_IsDir = False,
                 entry_Info = Inr \<lparr>info_Size = 5, info_ModTime = 7\<rparr>\<rparr>,
               \<lparr>entry_Name = ''gone'', entry_IsDir = False, entry_Info = Inl ErrNotExist\<rparr>] \<and>
    browsesDirectory ex_globals ex_os (ex_get ''GET'' ''/'' Map.empty)
      [\<lparr>entry_Name = ''a.txt'', entry_IsDir = False,
         entry_Info = Inr \<lparr>info_Size = 5, info_ModTime = 7\<rparr>\<rparr>,
       \<lparr>entry_Name = ''gone'', entry_IsDir = False, entry_Info = Inl ErrNotExist\<rparr>]) \<and>
   listFiles [] [\<lparr>entry_Name = ''a.txt'', entry_IsDir = False,
                    entry_Info = Inr \<lparr>info_Size = 5, info_ModTime = 7\<rparr>\<rparr>,
                  \<lparr>entry_Name = ''gone'', entry_IsDir = False, entry_Info = Inl ErrNotExist\<rparr>] []
     = [\<lparr>Name = ''a.txt'', Path = ''a.txt'', Size = 5, ModTime = 7, IsDir = False\<rparr>] \<and>
   status (browseHandler ex_globals ex_os (newResponseWriter (ex_get ''GET'' ''/'' Map.empty))
             (ex_get ''GET'' ''/'' Map.empty)) = 200"
proof -
  let ?es = "[\<lparr>entry_Name = ''a.txt'', entry_IsDir = False,
                 entry_Info = Inr \<lparr>info_Size = 5, info_ModTime = 7\<rparr>\<rparr>,
               \<lparr>entry_Name = ''gone'', entry_IsDir = False, entry_Info = Inl ErrNotExist\<rparr>]"
  let ?r = "ex_get ''GET'' ''/'' Map.empty"
  have h1: "\<lparr>entry_Name = ''a.txt'', entry_IsDir = False,
      entry_Info = Inr \<lparr>info_Size = 5, info_ModTime = 7\<rparr>\<rparr> \<in> set ?es" by simp
  have h2: "browsesDirectory ex_globals ex_os ?r ?es" by code_simp
  have h3: "ExecuteTemplate ex_globals ''browse.html''
              (Some (listingPage (TrimPrefix (URL_Path ?r) ''/'')
                       (listFiles (TrimPrefix (URL_Path ?r) ''/'') ?es []))) = ([], None)"
    by (simp add: ex_globals_def)
  have l: "concat (map (listed []) ?es) =
           [\<lparr>Name = ''a.txt'', Path = ''a.txt'', Size = 5, ModTime = 7, IsDir = False\<rparr>]"
    by code_simp
  from listing_skips_unreadable[of "[]" ?es ex_globals ex_os ?r] h2 h3
  have "listFiles [] ?es [] = concat (map (listed []) ?es)"
    and "status (browseHandler ex_globals ex_os (newResponseWriter ?r) ?r) = 200"
    by blast+
  with h1 h2 l show ?thesis by simp
qed

text \<open>C7 on the example server: a form whose field \<open>directory\<close> has one byte more than
  110 MiB is refused with 400 and changes nothing.\<close>

theorem upload_form_limit_witness:
  "(Method (ex_post [\<lparr>FormName = ''directory'', FileName = [], Data = ex_bigValue\<rparr>]) = ''POST'' \<and>
    Body (ex_post [\<lparr>FormName = ''directory'', FileName = [], Data = ex_bigValue\<rparr>]) =
      Inr [\<lparr>FormName = ''directory'', FileName = [], Data = ex_bigValue\<rparr>] \<and>
    valueBytes [\<lparr>FormName = ''directory'', FileName = [], Data = ex_bigValue\<rparr>]
      > 100 * 2 ^ 20 + 10 * 2 ^ 20) \<and>
   ParseMultipartForm (ex_post [\<lparr>FormName = ''directory'', FileName = [], Data = ex_bigValue\<rparr>])
     (100 * 2 ^ 20) = Inl ErrMessageTooLarge \<and>
   status (fst (uploadHandler ex_globals ex_os
                  (newResponseWriter (ex_post [\<lparr>FormName = ''directory'', FileName = [], Data = ex_bigValue\<rparr>]))
                  (ex_post [\<lparr>FormName = ''directory'', FileName = [], Data = ex_bigValue\<rparr>]))) = 400 \<and>
   snd (uploadHandler ex_globals ex_os
          (newResponseWriter (ex_post [\<lparr>FormName = ''directory'', FileName = [], Data = ex_bigValue\<rparr>]))
          (ex_post [\<lparr>FormName = ''directory'', FileName = [], Data = ex_bigValue\<rparr>])) = ex_os"
proof -
  let ?ps = "[\<lparr>FormName = ''directory'', FileName = [], Data = ex_bigValue\<rparr>]"
  have len: "int (length ex_bigValue) = 110 * 2 ^ 20 + 1"
    unfolding ex_bigValue_def length_replicate by simp
  have h: "Method (ex_post ?ps) = ''POST'' \<and> Body (ex_post ?ps) = Inr ?ps \<and>
           valueBytes ?ps > 100 * 2 ^ 20 + 10 * 2 ^ 20"
    by (simp add: ex_post_def valueBytes_def len)
  from upload_form_limit[of "ex_post ?ps" ?ps ErrMessageTooLarge ex_globals ex_os] h
  have p: "ParseMultipartForm (ex_post ?ps) (100 * 2 ^ 20) = Inl ErrMessageTooLarge" by blast
  from upload_form_limit[of "ex_post ?ps" ?ps ErrMessageTooLarge ex_globals ex_os] h p
  have "status (fst (uploadHandler ex_globals ex_os (newResponseWriter (ex_post ?ps)) (ex_post ?ps))) = 400 \<and>
        snd (uploadHandler ex_globals ex_os (newResponseWriter (ex_post ?ps)) (ex_post ?ps)) = ex_os"
    by blast
  with h p show ?thesis by blast
qed

text \<open>
  The claim C7 fails on the example server: an upload whose file has one byte more than
  100 MiB, so that the body is larger still, is answered with 303 and written in full.
\<close>

theorem upload_over_100MiB_counterexample:
  "int (length ex_bigFile) > 100 * 2 ^ 20 \<and>
   status (fst (uploadHandler ex_globals ex_os
                  (newResponseWriter (ex_post [\<lparr>FormName = ''file'', FileName = ''big.bin'', Data = ex_bigFile\<rparr>]))
                  (ex_post [\<lparr>FormName = ''file'', FileName = ''big.bin'', Data = ex_bigFile\<rparr>]))) = 303 \<and>
   nodes (snd (uploadHandler ex_globals ex_os
                  (newResponseWriter (ex_post [\<lparr>FormName = ''file'', FileName = ''big.bin'', Data = ex_bigFile\<rparr>]))
                  (ex_post [\<lparr>FormName = ''file'', FileName = ''big.bin'', Data = ex_bigFile\<rparr>])))
     ''/root/big.bin'' = Some (File ex_bigFile)"
proof -
  have "int (length ex_bigFile) > 100 * 2 ^ 20"
    unfolding ex_bigFile_def length_replicate by simp
  with upload_any_file[of ex_bigFile] show ?thesis by blast
qed

text \<open>C8 on the example server: the file name \<open>../../x\<close> is stored as \<open>/root/x\<close>.\<close>

theorem upload_destination_witness:
  "(Method (ex_post [\<lparr>FormName = ''file'', FileName = ''../../x'', Data = ''data''\<rparr>]) = ''POST'' \<and>
    ParseMultipartForm (ex_post [\<lparr>FormName = ''file'', FileName = ''../../x'', Data = ''data''\<rparr>]) (100 * 2 ^ 20)
      = Inr (projr (ParseMultipartForm (ex_post [\<lparr>FormName = ''file'', FileName = ''../../x'', Data = ''data''\<rparr>]) (100 * 2 ^ 20))) \<and>
    FormFile (projr (ParseMultipartForm (ex_post [\<lparr>FormName = ''file'', FileName = ''../../x'', Data = ''data''\<rparr>]) (100 * 2 ^ 20))) ''file''
      = Inr \<lparr>Filename = ''../../x'', Content = ''data''\<rparr> \<and>
    filepath_IsAbs (workingDir ex_globals) \<and>
    filepath_Clean (workingDir ex_globals) = workingDir ex_globals \<and>
    isDirectory ex_os (workingDir ex_globals) \<and>
    isDirectory ex_os (filepath_Join [workingDir ex_globals, ''..''])) \<and>
   filepath_Base ''../../x'' = ''x'' \<and>
   status (fst (uploadHandler ex_globals ex_os
                  (newResponseWriter (ex_post [\<lparr>FormName = ''file'', FileName = ''../../x'', Data = ''data''\<rparr>]))
                  (ex_post [\<lparr>FormName = ''file'', FileName = ''../../x'', Data = ''data''\<rparr>]))) = 303 \<and>
   nodes (snd (uploadHandler ex_globals ex_os
                  (newResponseWriter (ex_post [\<lparr>FormName = ''file'', FileName = ''../../x'', Data = ''data''\<rparr>]))
                  (ex_post [\<lparr>FormName = ''file'', FileName = ''../../x'', Data = ''data''\<rparr>])))
         (filepath_Join [uploadDir ex_globals
              (ex_post [\<lparr>FormName = ''file'', FileName = ''../../x'', Data = ''data''\<rparr>])
              (projr (ParseMultipartForm (ex_post [\<lparr>FormName = ''file'', FileName = ''../../x'', Data = ''data''\<rparr>]) (100 * 2 ^ 20))),
            filepath_Base ''../../x''])
     = Some (File ''data'')"
proof -
  let ?r = "ex_post [\<lparr>FormName = ''file'', FileName = ''../../x'', Data = ''data''\<rparr>]"
  let ?form = "projr (ParseMultipartForm ?r (100 * 2 ^ 20))"
  let ?header = "\<lparr>Filename = ''../../x'', Content = ''data''\<rparr>"
  have h1: "Method ?r = ''POST''" by (simp add: ex_post_def)
  have h2: "ParseMultipartForm ?r (100 * 2 ^ 20) = Inr ?form"
    by (simp add: ParseMultipartForm_def ex_post_def)
  have h3: "FormFile ?form ''file'' = Inr ?header" by code_simp
  have h4: "filepath_IsAbs (workingDir ex_globals) \<and>
    filepath_Clean (workingDir ex_globals) = workingDir ex_globals \<and>
    isDirectory ex_os (workingDir ex_globals) \<and>
    isDirectory ex_os (filepath_Join [workingDir ex_globals, ''..''])" by code_simp
  have b: "filepath_Base ''../../x'' = ''x''" by code_simp
  have s: "status (fst (uploadHandler ex_globals ex_os (newResponseWriter ?r) ?r)) = 303" by code_simp
  from upload_destination[of ?r ?form ?header ex_globals ex_os] h1 h2 h3 h4 s
  have "nodes (snd (uploadHandler ex_globals ex_os (newResponseWriter ?r) ?r))
         (filepath_Join [uploadDir ex_globals ?r ?form, filepath_Base ''../../x''])
     = Some (File ''data'')"
    by (simp add: Let_def)
  with h1 h2 h3 h4 b s show ?thesis by blast
qed


end
